theory Spec2Isabelle
  imports Complex_Main "HOL-Library.Word" "HOL-Library.Sublist"
begin

unbundle bit_operations_syntax

section \<open>Liquidity math library\<close>

text \<open>
  The library works on JavaScript BigInt values, modelled as \<open>int\<close>. BigInt division
  truncates toward zero and throws a RangeError on a zero divisor; \<open>>>\<close> on a BigInt
  is an arithmetic shift. A tick is a JavaScript integer, modelled as \<open>int\<close>.
\<close>

datatype math_error = TickOutOfBounds | DivisionByZero

definition Q96 :: int where
  "Q96 = 2 ^ 96"

definition bigint_div :: "int \<Rightarrow> int \<Rightarrow> math_error + int" where
  "bigint_div a b =
     (if b = 0 then Inl DivisionByZero else Inr (sgn a * sgn b * (\<bar>a\<bar> div \<bar>b\<bar>)))"

text \<open>
  The nineteen conditional multiplications of \<open>getSqrtRatioAtTick\<close>, as the table of
  their bit masks and 128-bit multipliers, in the order of the source.
\<close>

definition tick_multipliers :: "(int \<times> int) list" where
  "tick_multipliers =
     [(0x2, 0xfff97272373d413259a46990580e213a),
      (0x4, 0xfff2e50f5f656932ef12357cf3c7fdcc),
      (0x8, 0xffe5caca7e10e4e61c3624eaa0941cd0),
      (0x10, 0xffcb9843d60f6159c9db58835c926644),
      (0x20, 0xff973b41fa98c081472e6896dfb254c0),
      (0x40, 0xff2ea16466c96a3843ec78b326b52861),
      (0x80, 0xfe5dee046a99a2a811c461f1969c3053),
      (0x100, 0xfcbe86c7900a88aedcffc83b479aa3a4),
      (0x200, 0xf987a7253ac413176f2b074cf7815e54),
      (0x400, 0xf3392b0822b70005940c7a398e4b70f3),
      (0x800, 0xe7159475a2c29b7443b29c7fa6e889d9),
      (0x1000, 0xd097f3bdfd2022b8845ad8f792aa5825),
      (0x2000, 0xa9f746462d870fdf8a65dc1f90e061e5),
      (0x4000, 0x70d869a156d2a1b890bb3df62baf32f7),
      (0x8000, 0x31be135f97d08fd981231505542fcfa6),
      (0x10000, 0x9aa508b5b7a84e1c677de54f3e99bc9),
      (0x20000, 0x5d6af8dedb81196699c329225ee604),
      (0x40000, 0x2216e584f5fa1ea926041bedfe98),
      (0x80000, 0x48a170391f7dc42444e8fa2)]"

definition mul_step :: "int \<Rightarrow> int \<Rightarrow> int \<times> int \<Rightarrow> int" where
  "mul_step absTick ratio mm =
     (if absTick AND fst mm \<noteq> 0 then drop_bit 128 (ratio * snd mm) else ratio)"

definition getSqrtRatioAtTick :: "int \<Rightarrow> math_error + int" where
  "getSqrtRatioAtTick tick =
     (let absTick = \<bar>tick\<bar> in
      if absTick > 887272 then Inl TickOutOfBounds
      else
        let ratio0 = (if absTick AND 0x1 \<noteq> 0 then 0xfffcb933bd6fad37aa2d162d1a594001
                      else 0x100000000000000000000000000000000);
            ratio = foldl (mul_step absTick) ratio0 tick_multipliers
        in case (if tick > 0 then bigint_div (2 ^ 256 - 1) ratio else Inr ratio) of
             Inl e \<Rightarrow> Inl e
           | Inr r \<Rightarrow> Inr (drop_bit 32 r))"

definition getLiquidity0 :: "int \<Rightarrow> int \<Rightarrow> int \<Rightarrow> math_error + int" where
  "getLiquidity0 sqrtRatioAX96 sqrtRatioBX96 amount0 =
     (let a = (if sqrtRatioAX96 > sqrtRatioBX96 then sqrtRatioBX96 else sqrtRatioAX96);
          b = (if sqrtRatioAX96 > sqrtRatioBX96 then sqrtRatioAX96 else sqrtRatioBX96)
      in bigint_div (amount0 * b * a) (Q96 * (b - a)))"

definition getLiquidity1 :: "int \<Rightarrow> int \<Rightarrow> int \<Rightarrow> math_error + int" where
  "getLiquidity1 sqrtRatioAX96 sqrtRatioBX96 amount1 =
     (let a = (if sqrtRatioAX96 > sqrtRatioBX96 then sqrtRatioBX96 else sqrtRatioAX96);
          b = (if sqrtRatioAX96 > sqrtRatioBX96 then sqrtRatioAX96 else sqrtRatioBX96)
      in bigint_div (amount1 * Q96) (b - a))"

definition getLiquidityForAmounts :: "int \<Rightarrow> int \<Rightarrow> int \<Rightarrow> int \<Rightarrow> int \<Rightarrow> math_error + int" where
  "getLiquidityForAmounts sqrtPriceX96 sqrtRatioAX96 sqrtRatioBX96 amount0 amount1 =
     (let a = (if sqrtRatioAX96 > sqrtRatioBX96 then sqrtRatioBX96 else sqrtRatioAX96);
          b = (if sqrtRatioAX96 > sqrtRatioBX96 then sqrtRatioAX96 else sqrtRatioBX96)
      in if sqrtPriceX96 \<le> a then getLiquidity0 a b amount0
         else if sqrtPriceX96 \<ge> b then getLiquidity1 a b amount1
         else if amount0 = 0 then getLiquidity1 a sqrtPriceX96 amount1
         else if amount1 = 0 then getLiquidity0 sqrtPriceX96 b amount0
         else
           case getLiquidity0 sqrtPriceX96 b amount0 of
             Inl e \<Rightarrow> Inl e
           | Inr liquidity0 \<Rightarrow>
               (case getLiquidity1 a sqrtPriceX96 amount1 of
                  Inl e \<Rightarrow> Inl e
                | Inr liquidity1 \<Rightarrow>
                    Inr (if liquidity0 < liquidity1 then liquidity0 else liquidity1)))"

definition getAmount0ForLiquidity :: "int \<Rightarrow> int \<Rightarrow> int \<Rightarrow> math_error + int" where
  "getAmount0ForLiquidity sqrtRatioAX96 sqrtRatioBX96 liquidity =
     (let a = (if sqrtRatioAX96 > sqrtRatioBX96 then sqrtRatioBX96 else sqrtRatioAX96);
          b = (if sqrtRatioAX96 > sqrtRatioBX96 then sqrtRatioAX96 else sqrtRatioBX96)
      in bigint_div (liquidity * Q96 * (b - a)) (b * a))"

definition getAmount1ForLiquidity :: "int \<Rightarrow> int \<Rightarrow> int \<Rightarrow> math_error + int" where
  "getAmount1ForLiquidity sqrtRatioAX96 sqrtRatioBX96 liquidity =
     (let a = (if sqrtRatioAX96 > sqrtRatioBX96 then sqrtRatioBX96 else sqrtRatioAX96);
          b = (if sqrtRatioAX96 > sqrtRatioBX96 then sqrtRatioAX96 else sqrtRatioBX96)
      in bigint_div (liquidity * (b - a)) Q96)"

definition getAmountsForLiquidity :: "int \<Rightarrow> int \<Rightarrow> int \<Rightarrow> int \<Rightarrow> math_error + (int \<times> int)" where
  "getAmountsForLiquidity sqrtPriceX96 sqrtRatioAX96 sqrtRatioBX96 liquidity =
     (let a = (if sqrtRatioAX96 > sqrtRatioBX96 then sqrtRatioBX96 else sqrtRatioAX96);
          b = (if sqrtRatioAX96 > sqrtRatioBX96 then sqrtRatioAX96 else sqrtRatioBX96)
      in if sqrtPriceX96 \<le> a then
           (case getAmount0ForLiquidity a b liquidity of
              Inl e \<Rightarrow> Inl e | Inr amount0 \<Rightarrow> Inr (amount0, 0))
         else if sqrtPriceX96 \<ge> b then
           (case getAmount1ForLiquidity a b liquidity of
              Inl e \<Rightarrow> Inl e | Inr amount1 \<Rightarrow> Inr (0, amount1))
         else
           (case getAmount0ForLiquidity sqrtPriceX96 b liquidity of
              Inl e \<Rightarrow> Inl e
            | Inr amount0 \<Rightarrow>
                (case getAmount1ForLiquidity a sqrtPriceX96 liquidity of
                   Inl e \<Rightarrow> Inl e | Inr amount1 \<Rightarrow> Inr (amount0, amount1))))"


text \<open>
  The two library functions composed: the amounts derived from a liquidity value are fed
  back, at the same three square-root prices.
\<close>

definition roundTrip :: "int \<Rightarrow> int \<Rightarrow> int \<Rightarrow> int \<Rightarrow> math_error + int" where
  "roundTrip sqrtPriceX96 sqrtRatioAX96 sqrtRatioBX96 liquidity =
     (case getAmountsForLiquidity sqrtPriceX96 sqrtRatioAX96 sqrtRatioBX96 liquidity of
        Inl e \<Rightarrow> Inl e
      | Inr (amount0, amount1) \<Rightarrow>
          getLiquidityForAmounts sqrtPriceX96 sqrtRatioAX96 sqrtRatioBX96 amount0 amount1)"

text \<open>
  The specification's reading of the inside-range case, in its own words: the minimum of
  the liquidity implied by each token's amount. It is compared with
  \<open>getLiquidityForAmounts\<close> below.
\<close>

definition inside_range_min :: "int \<Rightarrow> int \<Rightarrow> int \<Rightarrow> int \<Rightarrow> int \<Rightarrow> math_error + int" where
  "inside_range_min sqrtPriceX96 lower upper amount0 amount1 =
     (case getLiquidity0 sqrtPriceX96 upper amount0 of
        Inl e \<Rightarrow> Inl e
      | Inr liquidity0 \<Rightarrow>
          (case getLiquidity1 lower sqrtPriceX96 amount1 of
             Inl e \<Rightarrow> Inl e
           | Inr liquidity1 \<Rightarrow> Inr (min liquidity0 liquidity1)))"

section \<open>Position state tracker and intent execution\<close>

text \<open>
  \<open>DaemonController.executeIntent\<close> runs on Node's single-threaded event loop. The model
  passes the daemon's state explicitly and takes every answer of the outside world (the
  configuration, the chain RPC, the platform's transaction builder, the swap aggregator)
  from an environment record, so that each \<open>await\<close> that can throw is a branch. Log
  lines, delays, gas tracking and event emissions have no effect on the state modelled
  here and are left out.
\<close>

type_synonym tokenId = nat

datatype action =
  DEPLOY | REBALANCE | BATCH_WITHDRAW | IDLE_SWEEP | COLLECT_FEES | SWAP_TOKENS | LOGIC_PURCHASE

record intent =
  intentId :: string
  action :: action
  recipe_tokenId :: tokenId
  recipe_fromTier :: "string option"
  recipe_slippageBps :: "int option"
  constraints_maxFeePerGas :: "int option"

datatype status = Completed | Skipped | Partial | Failed

text \<open>The reason texts of the receipts, one constructor per message template.\<close>

datatype reason =
    AlreadyBeingProcessed tokenId
  | AlreadyClosedBurned tokenId
  | NoLongerOwned tokenId
  | DecodeFailed tokenId
  | ZeroLiquidity tokenId
  | AlreadyInRange int
  | DoesNotExist tokenId
  | TierDisabled string
  | DriftedBackInRange int
  | DriftedAfterTx nat int
  | ErrorMessage string

record receipt =
  status :: status
  reason :: "reason option"
  completedTxs :: "nat option"
  attemptsExhausted :: "nat option"
  attempts :: "nat option"
  swapSlippageUsed :: "nat option"
  txHashes :: nat

text \<open>
  The object \<open>executeIntent\<close> returns: \<open>{success: true, txHashes}\<close>,
  \<open>{success: false, skipped: true, reason}\<close>, \<open>{success: false, partial: true,
  completedTxs, txHashes}\<close> or \<open>{success: false, error}\<close>. Lists of hashes are
  represented by their length.
\<close>

datatype outcome =
    Success nat
  | SkippedOut string
  | PartialOut nat nat
  | FailedOut string

text \<open>A transaction handed to the chain: it is recorded once the send call has returned.\<close>

datatype chain_tx = ApproveTx string | BundleTx string | SwapApproveTx | SwapTx | OtherTx

record daemon =
  isProcessingIntent :: bool
  pendingIntents :: "intent list"
  activePositions :: "tokenId set"
  closedPositions :: "tokenId set"
  submittedTxs :: "chain_tx list"
  receipts :: "(string \<times> receipt) list"

record position =
  liquidity :: nat
  tickLower :: int
  tickUpper :: int

record transaction =
  label :: "string option"

record txData =
  transactions :: "transaction list option"
  needsSwap :: bool
  imbalanceData :: bool

text \<open>
  What happens to a submitted transaction: the send call throws, the wait for the
  confirmation throws, the receipt has status 0, or it confirms.
\<close>

datatype confirmation = SendThrows string | WaitThrows string | Reverted | Confirmed

datatype approval = AllowanceThrows string | Sufficient | Approves confirmation

record swap_world =
  swap_prepare :: "string option"
  swap_allowance_ok :: bool
  swap_approve :: confirmation
  swap_send :: confirmation
  swap_refresh :: "transaction option"

text \<open>
  The environment during one pass through the body of \<open>executeIntent\<close>. A thrown
  error is its message (\<open>Inl\<close>, or \<open>Some\<close> where the call returns nothing of use).
  The calls inside the slippage ladder are indexed by \<open>tierIndex\<close>, those inside the
  transaction loop also by the index \<open>i\<close> of the transaction.
\<close>

record env =
  env_setup :: "string option"
  nfpm_ownerOf :: "string + bool"
  nfpm_positions :: "string + position"
  pool_slot0 :: "string + int"
  token_allowance :: "nat \<Rightarrow> approval"
  pool_fee :: "string option"
  tierEnabled :: "string \<Rightarrow> bool"
  nfpm_positions_start :: "string + position"
  pool_slot0_start :: "string + int"
  pool_slot0_attempt :: "nat \<Rightarrow> string + int"
  build_transaction :: "nat \<Rightarrow> string + txData"
  pool_slot0_check :: "nat \<Rightarrow> nat \<Rightarrow> string + int"
  send_transaction :: "nat \<Rightarrow> nat \<Rightarrow> confirmation"
  odos :: "nat \<Rightarrow> swap_world"
  generic_action :: "chain_tx list \<times> (string + outcome)"

datatype 'a step = Return outcome | Throw string | Continue 'a

definition MAX_RETRIES :: nat where
  "MAX_RETRIES = 2"

definition SWAP_SLIPPAGE_TIERS :: "nat list" where
  "SWAP_SLIPPAGE_TIERS = [20, 50, 100, 200, 500]"

text \<open>\<open>String.prototype.includes\<close>.\<close>

fun str_includes :: "string \<Rightarrow> string \<Rightarrow> bool" where
  "str_includes [] sub = (sub = [])"
| "str_includes (c # cs) sub = (prefix sub (c # cs) \<or> str_includes cs sub)"

definition skipped :: "reason \<Rightarrow> receipt" where
  "skipped rs = \<lparr>status = Skipped, reason = Some rs, completedTxs = None,
     attemptsExhausted = None, attempts = None, swapSlippageUsed = None, txHashes = 0\<rparr>"

text \<open>
  \<open>reportReceiptWithRetry\<close>: the receipt handed to the platform. A \<open>completed\<close>
  receipt without any transaction hash is sent as \<open>failed\<close>. Whether the delivery
  succeeds is not modelled; the call never throws.
\<close>

definition reportReceipt :: "daemon \<Rightarrow> intent \<Rightarrow> receipt \<Rightarrow> daemon" where
  "reportReceipt d intent r =
     d\<lparr>receipts := receipts d @
        [(intentId intent,
          if status r = Completed \<and> txHashes r = 0
          then r\<lparr>status := Failed,
                 reason := Some (ErrorMessage ''Transaction failed before txHash was returned'')\<rparr>
          else r)]\<rparr>"

definition submitTx :: "daemon \<Rightarrow> chain_tx \<Rightarrow> daemon" where
  "submitTx d tx = d\<lparr>submittedTxs := submittedTxs d @ [tx]\<rparr>"

text \<open>Lines 1282-1312: the tracker gate.\<close>

definition checkTracker :: "daemon \<Rightarrow> intent \<Rightarrow> unit step \<times> daemon" where
  "checkTracker d intent =
     (if action intent = REBALANCE then
        let t = recipe_tokenId intent in
        if t \<in> activePositions d then
          (Return (SkippedOut ''Duplicate - already processing''),
           reportReceipt d intent (skipped (AlreadyBeingProcessed t)))
        else if t \<in> closedPositions d then
          (Return (SkippedOut ''Position already closed''),
           reportReceipt d intent (skipped (AlreadyClosedBurned t)))
        else (Continue (), d\<lparr>activePositions := insert t (activePositions d)\<rparr>)
      else (Continue (), d))"

text \<open>
  Lines 1314-1435: the position is re-read from the chain. A position that is gone is
  moved from the active to the closed set before the skip is reported.
\<close>

definition positionGone :: "daemon \<Rightarrow> intent \<Rightarrow> reason \<Rightarrow> string \<Rightarrow> unit step \<times> daemon" where
  "positionGone d intent rs ret =
     (let t = recipe_tokenId intent;
          d1 = d\<lparr>activePositions := activePositions d - {t}\<rparr>;
          d2 = d1\<lparr>closedPositions := insert t (closedPositions d1)\<rparr>
      in (Return (SkippedOut ret), reportReceipt d2 intent (skipped rs)))"

definition onValidationError :: "daemon \<Rightarrow> intent \<Rightarrow> string \<Rightarrow> unit step \<times> daemon" where
  "onValidationError d intent msg =
     (if str_includes msg ''ERC721'' \<or> str_includes msg ''owner query''
      then positionGone d intent (DoesNotExist (recipe_tokenId intent)) ''Position does not exist''
      else (Throw msg, d))"

definition validatePosition :: "env \<Rightarrow> daemon \<Rightarrow> intent \<Rightarrow> unit step \<times> daemon" where
  "validatePosition e d intent =
     (let t = recipe_tokenId intent in
      case nfpm_ownerOf e of
        Inl msg \<Rightarrow> onValidationError d intent msg
      | Inr owned \<Rightarrow>
          if \<not> owned then positionGone d intent (NoLongerOwned t) ''Position not owned''
          else
            (case nfpm_positions e of
               Inl msg \<Rightarrow> positionGone d intent (DecodeFailed t) ''Position decode failed''
             | Inr position \<Rightarrow>
                 if liquidity position = 0
                 then positionGone d intent (ZeroLiquidity t) ''Position has no liquidity''
                 else
                   (case pool_slot0 e of
                      Inl msg \<Rightarrow> onValidationError d intent msg
                    | Inr currentTick \<Rightarrow>
                        if currentTick \<ge> tickLower position \<and> currentTick \<le> tickUpper position
                        then
                          (Return (SkippedOut ''Position already in range''),
                           reportReceipt (d\<lparr>activePositions := activePositions d - {t}\<rparr>)
                             intent (skipped (AlreadyInRange currentTick)))
                        else (Continue (), d))))"

text \<open>\<open>ensureTokenApprovals\<close>, over the three tokens of the source.\<close>

definition approvalTokens :: "(nat \<times> string) list" where
  "approvalTokens = [(0, ''wS''), (1, ''USDC''), (2, ''SHADOW'')]"

definition approvalError :: "string \<Rightarrow> string \<Rightarrow> string" where
  "approvalError symbol msg = ''Token approval required but failed: '' @ symbol @ '' - '' @ msg"

fun ensureTokenApprovals :: "env \<Rightarrow> daemon \<Rightarrow> (nat \<times> string) list \<Rightarrow> unit step \<times> daemon" where
  "ensureTokenApprovals e d [] = (Continue (), d)"
| "ensureTokenApprovals e d ((k, symbol) # tokens) =
     (case token_allowance e k of
        AllowanceThrows msg \<Rightarrow> (Throw (approvalError symbol msg), d)
      | Sufficient \<Rightarrow> ensureTokenApprovals e d tokens
      | Approves c \<Rightarrow>
          (case c of
             SendThrows msg \<Rightarrow> (Throw (approvalError symbol msg), d)
           | WaitThrows msg \<Rightarrow>
               (Throw (approvalError symbol msg), submitTx d (ApproveTx symbol))
           | Reverted \<Rightarrow> ensureTokenApprovals e (submitTx d (ApproveTx symbol)) tokens
           | Confirmed \<Rightarrow> ensureTokenApprovals e (submitTx d (ApproveTx symbol)) tokens))"

text \<open>
  Lines 1656-1704: the tier must be enabled and the position still out of range. The
  tick bounds read here are the ones the ladder compares against.
\<close>

definition rebalanceStart :: "env \<Rightarrow> daemon \<Rightarrow> intent \<Rightarrow> (int \<times> int) step \<times> daemon" where
  "rebalanceStart e d intent =
     (let positionTier =
            (case recipe_fromTier intent of
               None \<Rightarrow> ''UNKNOWN''
             | Some s \<Rightarrow> if s = [] then ''UNKNOWN'' else s)
      in if \<not> tierEnabled e positionTier then
           (Return (SkippedOut ''Tier disabled in preferences''),
            reportReceipt d intent (skipped (TierDisabled positionTier)))
         else
           (case nfpm_positions_start e of
              Inl msg \<Rightarrow> (Throw msg, d)
            | Inr position \<Rightarrow>
                (case pool_slot0_start e of
                   Inl msg \<Rightarrow> (Throw msg, d)
                 | Inr currentTick \<Rightarrow>
                     if currentTick \<ge> tickLower position \<and> currentTick \<le> tickUpper position
                     then
                       (Return (SkippedOut ''Position drifted back in-range''),
                        reportReceipt d intent (skipped (DriftedBackInRange currentTick)))
                     else (Continue (tickLower position, tickUpper position), d))))"

text \<open>
  The swap injected after the close transaction (lines 1844-2024): quote, assembly and
  allowance read (\<open>swap_prepare\<close> is the first error among them), the approval when
  the allowance is too small, the swap itself, and the refreshed reopen transaction
  (\<open>None\<close> when the refresh fails or returns nothing; the source swallows that).
  Returns the error or the refreshed transaction, the state, and the hashes pushed.
\<close>

definition sendSwap :: "swap_world \<Rightarrow> daemon \<Rightarrow> (string + transaction option) \<times> daemon \<times> nat" where
  "sendSwap w d =
     (case swap_send w of
        SendThrows msg \<Rightarrow> (Inl msg, d, 0)
      | WaitThrows msg \<Rightarrow> (Inl msg, submitTx d SwapTx, 1)
      | Reverted \<Rightarrow> (Inl ''SWAP_TOKENS reverted (status: 0)'', submitTx d SwapTx, 1)
      | Confirmed \<Rightarrow> (Inr (swap_refresh w), submitTx d SwapTx, 1))"

definition odosSwap :: "swap_world \<Rightarrow> daemon \<Rightarrow> (string + transaction option) \<times> daemon \<times> nat" where
  "odosSwap w d =
     (case swap_prepare w of
        Some msg \<Rightarrow> (Inl msg, d, 0)
      | None \<Rightarrow>
          if swap_allowance_ok w then sendSwap w d
          else
            (case swap_approve w of
               SendThrows msg \<Rightarrow> (Inl msg, d, 0)
             | WaitThrows msg \<Rightarrow> (Inl msg, submitTx d SwapApproveTx, 0)
             | Reverted \<Rightarrow> sendSwap w (submitTx d SwapApproveTx)
             | Confirmed \<Rightarrow> sendSwap w (submitTx d SwapApproveTx)))"

text \<open>
  \<open>transaction.label || `TX${i + 1}`\<close>; the number in the default label is left out,
  the label is only compared with \<open>CLOSE_POSITION\<close>.
\<close>

definition labelOf :: "transaction \<Rightarrow> string" where
  "labelOf tx = (case label tx of None \<Rightarrow> ''TX'' | Some l \<Rightarrow> if l = [] then ''TX'' else l)"

definition partialReceipt :: "nat \<Rightarrow> int \<Rightarrow> bool \<Rightarrow> nat \<Rightarrow> receipt" where
  "partialReceipt i checkTick swapNeeded hashes =
     \<lparr>status = Partial, reason = Some (DriftedAfterTx i checkTick),
      completedTxs = Some (i + (if swapNeeded \<and> i > 0 then 1 else 0)),
      attemptsExhausted = None, attempts = None, swapSlippageUsed = None,
      txHashes = hashes\<rparr>"

text \<open>
  Lines 1796-1815: before every transaction but the first the pool tick is read again.
  The result is the thrown error, or \<open>Some\<close> tick when the tick is back inside the
  range of the position.
\<close>

definition driftCheck :: "env \<Rightarrow> int \<Rightarrow> int \<Rightarrow> nat \<Rightarrow> nat \<Rightarrow> string + int option" where
  "driftCheck e tLower tUpper tierIndex i =
     (if i > 0 then
        (case pool_slot0_check e tierIndex i of
           Inl msg \<Rightarrow> Inl msg
         | Inr checkTick \<Rightarrow>
             if checkTick \<ge> tLower \<and> checkTick \<le> tUpper then Inr (Some checkTick)
             else Inr None)
      else Inr None)"

text \<open>
  Lines 1783-2029: the loop over the transactions of the bundle, from index \<open>i\<close>.
  The result is the way the loop was left, the (possibly refreshed) array, the
  \<open>positionClosed\<close> flag, the number of hashes collected and the state.
\<close>

function txLoop ::
  "env \<Rightarrow> intent \<Rightarrow> int \<Rightarrow> int \<Rightarrow> nat \<Rightarrow> bool \<Rightarrow> bool \<Rightarrow> nat \<Rightarrow> transaction list \<Rightarrow> bool \<Rightarrow> nat \<Rightarrow> daemon
     \<Rightarrow> unit step \<times> transaction list \<times> bool \<times> nat \<times> daemon" where
  "txLoop e intent tLower tUpper tierIndex swapNeeded imbalance i txs positionClosed hashes d =
     (if \<not> i < length txs then (Continue (), txs, positionClosed, hashes, d)
      else
        let lbl = labelOf (txs ! i) in
        if positionClosed \<and> lbl = ''CLOSE_POSITION''
        then txLoop e intent tLower tUpper tierIndex swapNeeded imbalance (i + 1) txs positionClosed hashes d
        else
          (case driftCheck e tLower tUpper tierIndex i of
             Inl msg \<Rightarrow> (Throw msg, txs, positionClosed, hashes, d)
           | Inr (Some checkTick) \<Rightarrow>
               (Return (PartialOut i hashes), txs, positionClosed, hashes,
                reportReceipt d intent (partialReceipt i checkTick swapNeeded hashes))
           | Inr None \<Rightarrow>
                 (case send_transaction e tierIndex i of
                    SendThrows msg \<Rightarrow> (Throw msg, txs, positionClosed, hashes, d)
                  | WaitThrows msg \<Rightarrow>
                      (Throw msg, txs, positionClosed, hashes + 1, submitTx d (BundleTx lbl))
                  | Reverted \<Rightarrow>
                      (Throw (lbl @ '' reverted (status: 0)''), txs, positionClosed, hashes + 1,
                       submitTx d (BundleTx lbl))
                  | Confirmed \<Rightarrow>
                      let d1 = submitTx d (BundleTx lbl);
                          closed1 = (positionClosed \<or> lbl = ''CLOSE_POSITION'')
                      in if lbl = ''CLOSE_POSITION'' \<and> swapNeeded \<and> imbalance then
                           (case odosSwap (odos e tierIndex) d1 of
                              (Inl msg, d2, h) \<Rightarrow> (Throw msg, txs, closed1, hashes + 1 + h, d2)
                            | (Inr refreshed, d2, h) \<Rightarrow>
                                txLoop e intent tLower tUpper tierIndex swapNeeded imbalance (i + 1)
                                  (case refreshed of
                                     None \<Rightarrow> txs
                                   | Some openTx \<Rightarrow> txs[length txs - 1 := openTx])
                                  closed1 (hashes + 1 + h) d2)
                         else
                           txLoop e intent tLower tUpper tierIndex swapNeeded imbalance (i + 1) txs closed1
                             (hashes + 1) d1)))"
  by pat_completeness auto
termination
  by (relation "measure (\<lambda>(e, intent, tLower, tUpper, tierIndex, swapNeeded, imbalance, i, txs, r).
        length txs - i)") (auto split: option.splits)

definition emptyCache :: txData where
  "emptyCache = \<lparr>transactions = None, needsSwap = False, imbalanceData = False\<rparr>"

definition completedReceipt :: "nat \<Rightarrow> nat \<Rightarrow> receipt" where
  "completedReceipt swapSlippageBps hashes =
     \<lparr>status = Completed, reason = None, completedTxs = None, attemptsExhausted = None,
      attempts = None, swapSlippageUsed = Some swapSlippageBps, txHashes = hashes\<rparr>"

text \<open>
  Lines 1717-2095: the body of the \<open>try\<close> of one rung of the ladder. The bundle is
  requested while the position is not closed and cached at \<open>tierIndex = 0\<close>;
  afterwards the cached bundle is reused. The array refreshed by the swap is the
  cached array itself when it was built at \<open>tierIndex = 0\<close>. \<open>swapSlippageBps\<close> is
  the entry of the tier, \<open>SWAP_SLIPPAGE_TIERS[tierIndex]\<close>.
\<close>

definition rebalanceAttempt ::
  "env \<Rightarrow> intent \<Rightarrow> int \<Rightarrow> int \<Rightarrow> nat \<Rightarrow> nat \<Rightarrow> txData \<Rightarrow> bool \<Rightarrow> daemon
     \<Rightarrow> unit step \<times> txData \<times> bool \<times> daemon" where
  "rebalanceAttempt e intent tLower tUpper tierIndex swapSlippageBps cache positionClosed d =
     (case pool_slot0_attempt e tierIndex of
        Inl msg \<Rightarrow> (Throw msg, cache, positionClosed, d)
      | Inr freshTick \<Rightarrow>
          if freshTick \<ge> tLower \<and> freshTick \<le> tUpper then
            (Return (SkippedOut ''Position drifted back in-range''), cache, positionClosed,
             reportReceipt d intent (skipped (DriftedBackInRange freshTick)))
          else
            (case (if \<not> positionClosed then build_transaction e tierIndex else Inr cache) of
               Inl msg \<Rightarrow> (Throw msg, cache, positionClosed, d)
             | Inr built \<Rightarrow>
                 let cache1 = (if \<not> positionClosed \<and> tierIndex = 0 then built else cache) in
                 (case transactions built of
                    None \<Rightarrow>
                      (Throw ''Invalid transaction data: expected array of transactions'',
                       cache1, positionClosed, d)
                  | Some txs \<Rightarrow>
                      (case txLoop e intent tLower tUpper tierIndex (needsSwap built)
                              (imbalanceData built) 0 txs positionClosed 0 d of
                         (r, txs', closed', hashes, d') \<Rightarrow>
                           let cache2 = (if positionClosed \<or> tierIndex = 0
                                         then cache1\<lparr>transactions := Some txs'\<rparr> else cache1)
                           in (case r of
                                 Throw msg \<Rightarrow> (Throw msg, cache2, closed', d')
                               | Return out \<Rightarrow> (Return out, cache2, closed', d')
                               | Continue u \<Rightarrow>
                                   let t = recipe_tokenId intent;
                                       d1 = reportReceipt d' intent
                                              (completedReceipt swapSlippageBps hashes);
                                       d2 = d1\<lparr>activePositions := activePositions d1 - {t}\<rparr>;
                                       d3 = d2\<lparr>closedPositions := insert t (closedPositions d2)\<rparr>
                                   in (Return (Success hashes), cache2, closed', d3))))))"

definition exhaustedReceipt :: "string \<Rightarrow> receipt" where
  "exhaustedReceipt msg =
     \<lparr>status = Failed, reason = Some (ErrorMessage msg), completedTxs = None,
      attemptsExhausted = Some (length SWAP_SLIPPAGE_TIERS), attempts = None,
      swapSlippageUsed = None, txHashes = 0\<rparr>"

text \<open>
  Lines 1711-2142: the ladder over the slippage tiers, from \<open>tierIndex\<close>. An attempt
  that throws is followed by the next tier, except at the last tier, where the intent is
  reported failed.
\<close>

function slippageLadder ::
  "env \<Rightarrow> intent \<Rightarrow> int \<Rightarrow> int \<Rightarrow> nat \<Rightarrow> txData \<Rightarrow> bool \<Rightarrow> daemon \<Rightarrow> unit step \<times> daemon" where
  "slippageLadder e intent tLower tUpper tierIndex cache positionClosed d =
     (if \<not> tierIndex < length SWAP_SLIPPAGE_TIERS then (Continue (), d)
      else
        (case rebalanceAttempt e intent tLower tUpper tierIndex (SWAP_SLIPPAGE_TIERS ! tierIndex)
                cache positionClosed d of
           (Return out, cache', closed', d') \<Rightarrow> (Return out, d')
         | (Continue u, cache', closed', d') \<Rightarrow> (Continue (), d')
         | (Throw msg, cache', closed', d') \<Rightarrow>
             if tierIndex = length SWAP_SLIPPAGE_TIERS - 1 then
               (Return (FailedOut msg), reportReceipt d' intent (exhaustedReceipt msg))
             else slippageLadder e intent tLower tUpper (tierIndex + 1) cache' closed' d'))"
  by pat_completeness auto
termination
  by (relation "measure (\<lambda>(e, intent, tLower, tUpper, tierIndex, r).
        length SWAP_SLIPPAGE_TIERS - tierIndex)") auto

text \<open>
  The path of every other action (and of a ladder that ends without returning, which
  the five tiers never do): the transactions it submits and its result are taken from
  the environment; its receipts are not recorded. It never reads or writes the two
  position sets.
\<close>

definition genericPath :: "env \<Rightarrow> daemon \<Rightarrow> intent \<Rightarrow> unit step \<times> daemon" where
  "genericPath e d intent =
     (case generic_action e of
        (txs, Inl msg) \<Rightarrow> (Throw msg, d\<lparr>submittedTxs := submittedTxs d @ txs\<rparr>)
      | (txs, Inr out) \<Rightarrow> (Return out, d\<lparr>submittedTxs := submittedTxs d @ txs\<rparr>))"

text \<open>
  The body of the outer \<open>try\<close> of \<open>executeIntent\<close> (lines 1247-2730), in three
  parts: the tracker gate, the validation of the position and the token approvals
  (\<open>preamble\<close>, lines 1282-1438); the ladder of a REBALANCE (\<open>rebalancePath\<close>); and
  the whole body, which starts with the set-up of configuration, network and wallet and
  reads the pool fee before the action is dispatched.
\<close>

definition preamble :: "env \<Rightarrow> daemon \<Rightarrow> intent \<Rightarrow> unit step \<times> daemon" where
  "preamble e d intent =
     (case checkTracker d intent of
        (Return out, d1) \<Rightarrow> (Return out, d1)
      | (Throw msg, d1) \<Rightarrow> (Throw msg, d1)
      | (Continue u, d1) \<Rightarrow>
          (case (if action intent = REBALANCE then validatePosition e d1 intent
                 else (Continue (), d1)) of
             (Return out, d2) \<Rightarrow> (Return out, d2)
           | (Throw msg, d2) \<Rightarrow> (Throw msg, d2)
           | (Continue u, d2) \<Rightarrow> ensureTokenApprovals e d2 approvalTokens))"

definition rebalancePath :: "env \<Rightarrow> daemon \<Rightarrow> intent \<Rightarrow> unit step \<times> daemon" where
  "rebalancePath e d intent =
     (case rebalanceStart e d intent of
        (Return out, d1) \<Rightarrow> (Return out, d1)
      | (Throw msg, d1) \<Rightarrow> (Throw msg, d1)
      | (Continue (tLower, tUpper), d1) \<Rightarrow>
          (case slippageLadder e intent tLower tUpper 0 emptyCache False d1 of
             (Continue u, d2) \<Rightarrow> genericPath e d2 intent
           | (Return out, d2) \<Rightarrow> (Return out, d2)
           | (Throw msg, d2) \<Rightarrow> (Throw msg, d2)))"

definition tryIntent :: "env \<Rightarrow> daemon \<Rightarrow> intent \<Rightarrow> unit step \<times> daemon" where
  "tryIntent e d intent =
     (case env_setup e of
        Some msg \<Rightarrow> (Throw msg, d)
      | None \<Rightarrow>
          (case preamble e d intent of
             (Return out, d3) \<Rightarrow> (Return out, d3)
           | (Throw msg, d3) \<Rightarrow> (Throw msg, d3)
           | (Continue u, d3) \<Rightarrow>
               (case pool_fee e of
                  Some msg \<Rightarrow> (Throw msg, d3)
                | None \<Rightarrow>
                    if action intent = REBALANCE then rebalancePath e d3 intent
                    else genericPath e d3 intent)))"

text \<open>The error classification of the outer \<open>catch\<close> (lines 2750-2766).\<close>

definition isPermanentError :: "string \<Rightarrow> bool" where
  "isPermanentError msg =
     (str_includes msg ''nonce'' \<and> str_includes msg ''too low'' \<or> str_includes msg ''already known''
      \<or> str_includes msg ''replacement fee too low'' \<or> str_includes msg ''invalid signature''
      \<or> str_includes msg ''not authorized'')"

definition isSlippageError :: "string \<Rightarrow> bool" where
  "isSlippageError msg =
     (str_includes msg ''slippage'' \<or> str_includes msg ''INSUFFICIENT_OUTPUT_AMOUNT''
      \<or> str_includes msg ''Too little received'' \<or> str_includes msg ''K'')"

definition isTemporaryError :: "string \<Rightarrow> bool" where
  "isTemporaryError msg =
     (str_includes msg ''revert'' \<or> str_includes msg ''insufficient funds''
      \<or> str_includes msg ''insufficient balance'' \<or> str_includes msg ''network''
      \<or> str_includes msg ''timeout'' \<or> str_includes msg ''out of range'')"

definition shouldRetry :: "intent \<Rightarrow> string \<Rightarrow> nat \<Rightarrow> bool" where
  "shouldRetry intent msg attempt =
     (\<not> isPermanentError msg \<and> \<not> (isSlippageError msg \<and> action intent \<noteq> REBALANCE)
      \<and> isTemporaryError msg \<and> attempt < MAX_RETRIES)"

definition failedReceipt :: "string \<Rightarrow> nat \<Rightarrow> receipt" where
  "failedReceipt msg attempt =
     \<lparr>status = Failed, reason = Some (ErrorMessage msg), completedTxs = None,
      attemptsExhausted = None, attempts = Some attempt, swapSlippageUsed = None,
      txHashes = 0\<rparr>"

text \<open>
  \<open>executeIntent(intent, attempt)\<close>. The environment of each pass is \<open>envs attempt\<close>.
  A thrown error is retried once when it is classified temporary; otherwise the token
  is removed from the active set (for a REBALANCE with a truthy token id) and the intent
  is reported failed. The rewording of the message for the user is left out. The body
  never ends without returning or throwing, so the third case below is never taken.
\<close>

function executeIntent :: "(nat \<Rightarrow> env) \<Rightarrow> daemon \<Rightarrow> intent \<Rightarrow> nat \<Rightarrow> outcome \<times> daemon" where
  "executeIntent envs d intent attempt =
     (case tryIntent (envs attempt) d intent of
        (Return out, d') \<Rightarrow> (out, d')
      | (Continue u, d') \<Rightarrow> (FailedOut [], d')
      | (Throw msg, d') \<Rightarrow>
          if shouldRetry intent msg attempt
          then executeIntent envs d' intent (attempt + 1)
          else
            let d1 = (if action intent = REBALANCE \<and> recipe_tokenId intent \<noteq> 0
                      then d'\<lparr>activePositions := activePositions d' - {recipe_tokenId intent}\<rparr>
                      else d')
            in (FailedOut msg, reportReceipt d1 intent (failedReceipt msg attempt)))"
  by pat_completeness auto
termination
  by (relation "measure (\<lambda>(envs, d, intent, attempt). MAX_RETRIES - attempt)")
    (auto simp add: shouldRetry_def)

text \<open>
  \<open>processIntentQueue\<close>: the pending intents are taken off the queue and executed one
  after the other under the \<open>isProcessingIntent\<close> lock; \<open>world k\<close> is the environment
  met by the \<open>k\<close>-th intent of the batch.
\<close>

fun executeAll ::
  "(nat \<Rightarrow> nat \<Rightarrow> env) \<Rightarrow> nat \<Rightarrow> intent list \<Rightarrow> daemon \<Rightarrow> outcome list \<times> daemon" where
  "executeAll world k [] d = ([], d)"
| "executeAll world k (intent # rest) d =
     (case executeIntent (world k) d intent 1 of
        (out, d') \<Rightarrow>
          (case executeAll world (k + 1) rest d' of
             (outs, d'') \<Rightarrow> (out # outs, d'')))"

definition processIntentQueue :: "(nat \<Rightarrow> nat \<Rightarrow> env) \<Rightarrow> daemon \<Rightarrow> outcome list \<times> daemon" where
  "processIntentQueue world d =
     (if isProcessingIntent d then ([], d)
      else if pendingIntents d = [] then ([], d)
      else
        let intentsToProcess = pendingIntents d;
            d1 = d\<lparr>isProcessingIntent := True, pendingIntents := []\<rparr>
        in case executeAll world 0 intentsToProcess d1 of
             (outs, d2) \<Rightarrow> (outs, d2\<lparr>isProcessingIntent := False\<rparr>))"

text \<open>The daemon as constructed: nothing pending, both position sets empty.\<close>

definition initialDaemon :: daemon where
  "initialDaemon = \<lparr>isProcessingIntent = False, pendingIntents = [], activePositions = {},
     closedPositions = {}, submittedTxs = [], receipts = []\<rparr>"

text \<open>The tracker invariant: no token id is in the active and in the closed set at once.\<close>

definition trackerDisjoint :: "daemon \<Rightarrow> bool" where
  "trackerDisjoint d = (activePositions d \<inter> closedPositions d = {})"

text \<open>
  What every operation does to the tracker: it keeps the two sets disjoint and removes
  nothing from the closed set.
\<close>

definition trackerStep :: "daemon \<Rightarrow> daemon \<Rightarrow> bool" where
  "trackerStep d d' =
     ((trackerDisjoint d \<longrightarrow> trackerDisjoint d') \<and> closedPositions d \<subseteq> closedPositions d')"

text \<open>
  A concrete scenario for the examples: a REBALANCE intent for position 7, whose range
  is \<open>[-100, 100]\<close>, while the pool tick is 500; the platform builds the bundle of a
  close and a reopen transaction and asks for a swap; every call succeeds.
\<close>

definition rebalance7 :: intent where
  "rebalance7 = \<lparr>intentId = ''intent-a'', action = REBALANCE, recipe_tokenId = 7,
     recipe_fromTier = Some ''HOT'', recipe_slippageBps = None,
     constraints_maxFeePerGas = None\<rparr>"

definition closeAndReopen :: txData where
  "closeAndReopen =
     \<lparr>transactions = Some [\<lparr>label = Some ''CLOSE_POSITION''\<rparr>, \<lparr>label = Some ''OPEN_POSITION''\<rparr>],
      needsSwap = True, imbalanceData = True\<rparr>"

definition calmSwap :: swap_world where
  "calmSwap = \<lparr>swap_prepare = None, swap_allowance_ok = True, swap_approve = Confirmed,
     swap_send = Confirmed, swap_refresh = None\<rparr>"

definition calmEnv :: env where
  "calmEnv =
     \<lparr>env_setup = None, nfpm_ownerOf = Inr True,
      nfpm_positions = Inr \<lparr>liquidity = 1000, tickLower = - 100, tickUpper = 100\<rparr>,
      pool_slot0 = Inr 500, token_allowance = (\<lambda>k. Sufficient), pool_fee = None,
      tierEnabled = (\<lambda>s. True),
      nfpm_positions_start = Inr \<lparr>liquidity = 1000, tickLower = - 100, tickUpper = 100\<rparr>,
      pool_slot0_start = Inr 500, pool_slot0_attempt = (\<lambda>k. Inr 500),
      build_transaction = (\<lambda>k. Inr closeAndReopen), pool_slot0_check = (\<lambda>k i. Inr 500),
      send_transaction = (\<lambda>k i. Confirmed), odos = (\<lambda>k. calmSwap),
      generic_action = ([], Inl ''not a generic action'')\<rparr>"

section \<open>Intent verifier: the policy gate\<close>

text \<open>
  The fields of the policy snapshot that \<open>IntentVerifier.validatePolicy\<close> reads. A
  field that may be missing is an option. Balances and thresholds are JavaScript
  numbers, modelled as rationals; gas prices and basis points as integers.
\<close>

record policy =
  automation_autoRebalancing :: "bool option"
  spending_emergencyStopEnabled :: bool
  spending_currentBalance :: "rat option"
  spending_emergencyStopThreshold :: "rat option"
  subscription_allowedHours :: "int list option"
  network_maxGasPrice :: "int option"
  network_maxSlippageBps :: "int option"

text \<open>The warnings that \<open>validatePolicy\<close> logs, one constructor per message.\<close>

datatype rejection =
    AutomationDisabled
  | BelowEmergencyThreshold rat rat
  | OutsideAllowedHours "int option" "int option" int
  | GasPriceExceedsLimit int int
  | SlippageExceedsLimit int int

text \<open>
  \<open>const [startHour, endHour] = policy.subscription.allowedHours\<close>: an element
  that the array does not have is \<open>undefined\<close>, and a comparison with \<open>undefined\<close>
  is false.
\<close>

definition element :: "int list \<Rightarrow> nat \<Rightarrow> int option" where
  "element hs k = (if k < length hs then Some (hs ! k) else None)"

definition automationRejection :: "policy \<Rightarrow> rejection option" where
  "automationRejection p =
     (if automation_autoRebalancing p = Some False then Some AutomationDisabled else None)"

definition emergencyRejection :: "policy \<Rightarrow> rejection option" where
  "emergencyRejection p =
     (case spending_currentBalance p of
        None \<Rightarrow> None
      | Some balance \<Rightarrow>
          let threshold = (case spending_emergencyStopThreshold p of
                             None \<Rightarrow> 5
                           | Some v \<Rightarrow> if v = 0 then 5 else v)
          in if spending_emergencyStopEnabled p \<and> balance < threshold
             then Some (BelowEmergencyThreshold balance threshold)
             else None)"

definition hoursRejection :: "policy \<Rightarrow> int \<Rightarrow> rejection option" where
  "hoursRejection p currentHour =
     (case subscription_allowedHours p of
        None \<Rightarrow> None
      | Some hs \<Rightarrow>
          if (case element hs 0 of None \<Rightarrow> False | Some startHour \<Rightarrow> currentHour < startHour)
             \<or> (case element hs 1 of None \<Rightarrow> False | Some endHour \<Rightarrow> currentHour > endHour)
          then Some (OutsideAllowedHours (element hs 0) (element hs 1) currentHour)
          else None)"

definition gasRejection :: "policy \<Rightarrow> intent \<Rightarrow> rejection option" where
  "gasRejection p intent =
     (case (constraints_maxFeePerGas intent, network_maxGasPrice p) of
        (Some intentGasPrice, Some policyMaxGas) \<Rightarrow>
          if intentGasPrice \<noteq> 0 \<and> policyMaxGas \<noteq> 0 \<and> intentGasPrice > policyMaxGas
          then Some (GasPriceExceedsLimit intentGasPrice policyMaxGas)
          else None
      | _ \<Rightarrow> None)"

definition slippageRejection :: "policy \<Rightarrow> intent \<Rightarrow> rejection option" where
  "slippageRejection p intent =
     (case (recipe_slippageBps intent, network_maxSlippageBps p) of
        (Some intentSlippage, Some policyMaxSlippage) \<Rightarrow>
          if intentSlippage \<noteq> 0 \<and> policyMaxSlippage \<noteq> 0
             \<and> intentSlippage > policyMaxSlippage
          then Some (SlippageExceedsLimit intentSlippage policyMaxSlippage)
          else None
      | _ \<Rightarrow> None)"

text \<open>
  \<open>validatePolicy(intent, policy = null)\<close>: the five rules in the order of the source;
  the first that fires is logged and \<open>false\<close> is returned. Besides its two arguments
  the function reads the policy file when no policy is passed (\<open>loaded\<close> is what
  \<open>loadPolicy()\<close> returns) and the clock (\<open>currentHour\<close> is
  \<open>new Date().getHours()\<close>). The result is the returned boolean and the warning logged
  on rejection.
\<close>

fun firstRejection :: "rejection option list \<Rightarrow> bool \<times> rejection option" where
  "firstRejection [] = (True, None)"
| "firstRejection (None # rules) = firstRejection rules"
| "firstRejection (Some r # rules) = (False, Some r)"

text \<open>
  \<open>if (!policy) { policy = this.loadPolicy() }\<close>: the policy that the five rules are
  checked against.
\<close>

definition policyInEffect :: "policy \<Rightarrow> policy option \<Rightarrow> policy" where
  "policyInEffect loaded policy = (case policy of None \<Rightarrow> loaded | Some q \<Rightarrow> q)"

definition validatePolicy :: "policy \<Rightarrow> int \<Rightarrow> intent \<Rightarrow> policy option \<Rightarrow> bool \<times> rejection option" where
  "validatePolicy loaded currentHour intent policy =
     (let p = policyInEffect loaded policy
      in firstRejection
           [automationRejection p, emergencyRejection p, hoursRejection p currentHour,
            gasRejection p intent, slippageRejection p intent])"

text \<open>A policy that allows automation between 9 and 17 o'clock, for the examples.\<close>

definition officeHours :: policy where
  "officeHours =
     \<lparr>automation_autoRebalancing = Some True, spending_emergencyStopEnabled = True,
      spending_currentBalance = Some 50, spending_emergencyStopThreshold = Some 5,
      subscription_allowedHours = Some [9, 17], network_maxGasPrice = Some 100000000000,
      network_maxSlippageBps = Some 100\<rparr>"

text \<open>The same policy file after the user has switched automation off.\<close>

definition automationOff :: policy where
  "automationOff = officeHours\<lparr>automation_autoRebalancing := Some False\<rparr>"

section \<open>Grace period monitor\<close>

text \<open>
  A position as the platform lists it. \<open>gp_graceExpiresAt\<close> is the expiry in
  milliseconds (\<open>new Date(graceExpiresAt).getTime()\<close>, \<open>None\<close> when the field is
  missing or falsy), \<open>gp_shadowRewards\<close> is \<open>parseFloat(shadowRewards) || 0\<close>, modelled as a
  rational.
\<close>

record gracePosition =
  gp_tokenId :: tokenId
  gp_status :: string
  gp_graceExpiresAt :: "int option"
  gp_shadowRewards :: rat
  gp_tickLower :: "int option"
  gp_tickUpper :: "int option"

record tracked =
  graceExpiresAt :: "int option"
  shadowCollected :: bool
  tier :: string

definition COLLECTION_THRESHOLD_MS :: int where
  "COLLECTION_THRESHOLD_MS = 60000"

definition getTierFromRange :: "int \<Rightarrow> int \<Rightarrow> string" where
  "getTierFromRange lower upper =
     (let rangeWidth = \<bar>upper - lower\<bar> in
      if rangeWidth \<le> 100 then ''HOT''
      else if rangeWidth \<le> 200 then ''WARM''
      else if rangeWidth \<le> 300 then ''MEDIUM''
      else if rangeWidth \<le> 400 then ''WIDE''
      else ''INSURANCE'')"

text \<open>
  \<open>handlePositionInGracePeriod\<close>. The monitor holds a reference to the daemon
  (\<open>this.daemon\<close>, the first argument). \<open>collect t\<close> is the result of
  \<open>collectShadowForPosition\<close> for token \<open>t\<close>: \<open>Some\<close> the message when it throws.
  The result is the updated tracking map and the tokens for which the harvest was
  requested. The clock is read once (\<open>now\<close>). Without an expiry time the time
  remaining is not a number, and no comparison with it holds.
\<close>

definition handlePositionInGracePeriod ::
  "daemon \<Rightarrow> (tokenId \<Rightarrow> string option) \<Rightarrow> int \<Rightarrow> (tokenId \<rightharpoonup> tracked) \<Rightarrow> gracePosition
     \<Rightarrow> (tokenId \<rightharpoonup> tracked) \<times> tokenId list" where
  "handlePositionInGracePeriod daemon collect now trackedPositions position =
     (let t = gp_tokenId position;
          expiresAt = gp_graceExpiresAt position;
          tier0 = (case (gp_tickLower position, gp_tickUpper position) of
                     (Some lower, Some upper) \<Rightarrow> getTierFromRange lower upper
                   | _ \<Rightarrow> ''UNKNOWN'');
          entry = (case trackedPositions t of
                     None \<Rightarrow> \<lparr>graceExpiresAt = expiresAt, shadowCollected = False, tier = tier0\<rparr>
                   | Some tr \<Rightarrow> tr);
          entry1 = (if tier entry = ''UNKNOWN'' \<and> tier0 \<noteq> ''UNKNOWN''
                    then entry\<lparr>tier := tier0\<rparr> else entry);
          shouldCollect =
            (case expiresAt of
               None \<Rightarrow> False
             | Some ms \<Rightarrow>
                 (let timeRemaining = ms - now
                  in timeRemaining < COLLECTION_THRESHOLD_MS \<and> \<not> shadowCollected entry1
                     \<or> timeRemaining \<le> 0 \<and> \<not> shadowCollected entry1))
      in if shouldCollect then
           if gp_shadowRewards position > 1 / 1000 then
             (case collect t of
                None \<Rightarrow> (trackedPositions(t \<mapsto> entry1\<lparr>shadowCollected := True\<rparr>), [t])
              | Some msg \<Rightarrow> (trackedPositions(t \<mapsto> entry1), [t]))
           else (trackedPositions(t \<mapsto> entry1\<lparr>shadowCollected := True\<rparr>), [])
         else (trackedPositions(t \<mapsto> entry1), []))"

definition inGraceStatus :: "gracePosition \<Rightarrow> bool" where
  "inGraceStatus position =
     (gp_status position = ''GRACE_PERIOD'' \<or> gp_status position = ''REBALANCE_QUEUED''
      \<or> gp_status position = ''PENDING_REBALANCE'')"

fun handlePositions ::
  "daemon \<Rightarrow> (tokenId \<Rightarrow> string option) \<Rightarrow> int \<Rightarrow> (tokenId \<rightharpoonup> tracked) \<Rightarrow> gracePosition list
     \<Rightarrow> (tokenId \<rightharpoonup> tracked) \<times> tokenId list" where
  "handlePositions daemon collect now trackedPositions [] = (trackedPositions, [])"
| "handlePositions daemon collect now trackedPositions (position # rest) =
     (if inGraceStatus position \<and> gp_graceExpiresAt position \<noteq> None
      then
        (case handlePositionInGracePeriod daemon collect now trackedPositions position of
           (tracked1, harvested) \<Rightarrow>
             (case handlePositions daemon collect now tracked1 rest of
                (tracked2, others) \<Rightarrow> (tracked2, harvested @ others)))
      else handlePositions daemon collect now trackedPositions rest)"

definition cleanupTrackedPositions ::
  "(tokenId \<rightharpoonup> tracked) \<Rightarrow> gracePosition list \<Rightarrow> (tokenId \<rightharpoonup> tracked)" where
  "cleanupTrackedPositions trackedPositions currentPositions =
     trackedPositions |` (gp_tokenId ` set (filter inGraceStatus currentPositions))"

text \<open>
  \<open>checkGracePeriods\<close>: nothing happens unless the daemon is running, linked and has
  a wallet (\<open>ready\<close>); a failed fetch of the position list (\<open>Inl\<close>) is logged and
  leaves the tracking map as it is.
\<close>

definition checkGracePeriods ::
  "daemon \<Rightarrow> bool \<Rightarrow> (string + gracePosition list) \<Rightarrow> (tokenId \<Rightarrow> string option) \<Rightarrow> int
     \<Rightarrow> (tokenId \<rightharpoonup> tracked) \<Rightarrow> (tokenId \<rightharpoonup> tracked) \<times> tokenId list" where
  "checkGracePeriods daemon ready fetched collect now trackedPositions =
     (if \<not> ready then (trackedPositions, [])
      else
        (case fetched of
           Inl msg \<Rightarrow> (trackedPositions, [])
         | Inr positions \<Rightarrow>
             (case handlePositions daemon collect now trackedPositions positions of
                (tracked1, harvested) \<Rightarrow>
                  (cleanupTrackedPositions tracked1 positions, harvested))))"


section \<open>Properties of the liquidity math library\<close>

lemma bigint_div_nonneg: "0 \<le> a \<Longrightarrow> 0 < b \<Longrightarrow> bigint_div a b = Inr (a div b)"
  by (cases "a = 0") (simp_all add: bigint_div_def)

lemma Q96_pos: "0 < Q96"
  by (simp add: Q96_def)

text \<open>
  Two successive truncating divisions: multiplying by \<open>D / N\<close> and then by \<open>N / D\<close>
  never overshoots, and loses at most one unit plus what one unit of the intermediate
  value is worth.
\<close>

lemma floor_roundtrip:
  fixes L D N :: int
  assumes "0 \<le> L" "0 < D" "0 < N"
  shows "(L * D div N) * N div D \<le> L" and "L - (L * D div N) * N div D \<le> 1 + N div D"
proof -
  define a where "a = L * D div N"
  define L' where "L' = a * N div D"
  have e1: "L * D = a * N + (L * D) mod N"
    unfolding a_def by simp
  have e2: "a * N = L' * D + (a * N) mod D"
    unfolding L'_def by simp
  have m1: "0 \<le> (L * D) mod N" "(L * D) mod N < N" using assms(3) by simp_all
  have m2: "0 \<le> (a * N) mod D" "(a * N) mod D < D" using assms(2) by simp_all
  have "L' * D \<le> L * D" using e1 e2 m1 m2 by linarith
  then have le: "L' \<le> L" using assms(2) by simp
  have "(L - L' - 1) * D < N"
    using e1 e2 m1 m2 by (simp add: algebra_simps)
  then have "(L - L' - 1) * D div D \<le> N div D"
    using zdiv_mono1 [of "(L - L' - 1) * D" N D] assms(2) by simp
  then have up: "L - L' \<le> 1 + N div D" using assms(2) by simp
  show "(L * D div N) * N div D \<le> L" using le unfolding L'_def a_def .
  show "L - (L * D div N) * N div D \<le> 1 + N div D" using up unfolding L'_def a_def .
qed

lemma amount0_roundtrip:
  assumes "0 < a" "a < b" "0 \<le> L"
  shows "\<exists>x. getAmount0ForLiquidity a b L = Inr x \<and> 0 \<le> x \<and>
           (\<exists>L'. getLiquidity0 a b x = Inr L' \<and> 0 \<le> L' \<and> L' \<le> L \<and>
                 L - L' \<le> 1 + (b * a) div (Q96 * (b - a)))"
proof -
  let ?D = "Q96 * (b - a)"
  let ?N = "b * a"
  have D: "0 < ?D" using assms Q96_pos by simp
  have N: "0 < ?N" using assms by simp
  have LD: "0 \<le> L * ?D" using D assms(3) by simp
  have x: "getAmount0ForLiquidity a b L = Inr (L * ?D div ?N)"
    using assms bigint_div_nonneg [OF LD N] by (simp add: getAmount0ForLiquidity_def mult.assoc)
  have x0: "0 \<le> L * ?D div ?N" using LD N by (simp add: pos_imp_zdiv_nonneg_iff)
  then have xN: "0 \<le> (L * ?D div ?N) * ?N" using N by simp
  have l: "getLiquidity0 a b (L * ?D div ?N) = Inr ((L * ?D div ?N) * ?N div ?D)"
    using assms bigint_div_nonneg [OF xN D] by (simp add: getLiquidity0_def mult.assoc)
  have l0: "0 \<le> (L * ?D div ?N) * ?N div ?D" using xN D by (simp add: pos_imp_zdiv_nonneg_iff)
  show ?thesis
    using x x0 l l0 floor_roundtrip [OF assms(3) D N] by blast
qed

lemma amount1_roundtrip:
  assumes "a < b" "0 \<le> L"
  shows "\<exists>x. getAmount1ForLiquidity a b L = Inr x \<and> 0 \<le> x \<and>
           (\<exists>L'. getLiquidity1 a b x = Inr L' \<and> 0 \<le> L' \<and> L' \<le> L \<and>
                 L - L' \<le> 1 + Q96 div (b - a))"
proof -
  let ?D = "b - a"
  let ?N = "Q96"
  have D: "0 < ?D" using assms by simp
  have N: "0 < ?N" by (rule Q96_pos)
  have LD: "0 \<le> L * ?D" using D assms(2) by simp
  have x: "getAmount1ForLiquidity a b L = Inr (L * ?D div ?N)"
    using assms bigint_div_nonneg [OF LD N] by (simp add: getAmount1ForLiquidity_def)
  have x0: "0 \<le> L * ?D div ?N" using LD N by (simp add: pos_imp_zdiv_nonneg_iff)
  then have xN: "0 \<le> (L * ?D div ?N) * ?N" using N by simp
  have l: "getLiquidity1 a b (L * ?D div ?N) = Inr ((L * ?D div ?N) * ?N div ?D)"
    using assms bigint_div_nonneg [OF xN D] by (simp add: getLiquidity1_def)
  have l0: "0 \<le> (L * ?D div ?N) * ?N div ?D" using xN D by (simp add: pos_imp_zdiv_nonneg_iff)
  show ?thesis
    using x x0 l l0 floor_roundtrip [OF assms(2) D N] by blast
qed

text \<open>
  C6. \<open>getSqrtRatioAtTick\<close> fails with the domain error for every tick below -887272 or
  above 887272 (so for 887273 and -887273); it returns no value there, clamped or
  otherwise. At tick 0 it returns exactly \<open>2^96\<close>.
\<close>

theorem getSqrtRatioAtTick_domain:
  "(tick < - 887272 \<or> 887272 < tick \<longrightarrow> getSqrtRatioAtTick tick = Inl TickOutOfBounds)
   \<and> getSqrtRatioAtTick 0 = Inr (2 ^ 96)"
proof
  show "tick < - 887272 \<or> 887272 < tick \<longrightarrow> getSqrtRatioAtTick tick = Inl TickOutOfBounds"
    unfolding getSqrtRatioAtTick_def Let_def by auto
  show "getSqrtRatioAtTick 0 = Inr (2 ^ 96)"
    by (simp add: getSqrtRatioAtTick_def tick_multipliers_def mul_step_def drop_bit_eq_div)
qed

theorem getSqrtRatioAtTick_domain_witness:
  "getSqrtRatioAtTick 887273 = Inl TickOutOfBounds
   \<and> getSqrtRatioAtTick (- 887273) = Inl TickOutOfBounds
   \<and> getSqrtRatioAtTick 0 = Inr (2 ^ 96)"
  using getSqrtRatioAtTick_domain [of 887273] getSqrtRatioAtTick_domain [of "- 887273"]
  by simp

text \<open>
  C7, as the specification states it, fails: with the price inside the range and
  \<open>amount0 = 0\<close>, the minimum of the two implied liquidities is 0, but the function
  returns the liquidity implied by \<open>amount1\<close> alone.
\<close>

theorem getLiquidityForAmounts_min_counterexample:
  "getLiquidityForAmounts 2 1 3 0 1 = Inr (2 ^ 96) \<and> inside_range_min 2 1 3 0 1 = Inr 0"
  by (simp add: getLiquidityForAmounts_def inside_range_min_def getLiquidity0_def
      getLiquidity1_def bigint_div_def Q96_def)

text \<open>
  C7, amended. With the current price strictly between the two bounds:
  when both amounts are non-zero the result is the minimum of the liquidity implied by
  \<open>amount0\<close> and the liquidity implied by \<open>amount1\<close>; when \<open>amount0\<close> is zero it is the
  liquidity implied by \<open>amount1\<close> alone; otherwise, when \<open>amount1\<close> is zero, it is the
  liquidity implied by \<open>amount0\<close> alone.
\<close>

theorem getLiquidityForAmounts_inside_range:
  assumes "min sqrtRatioAX96 sqrtRatioBX96 < sqrtPriceX96"
    and "sqrtPriceX96 < max sqrtRatioAX96 sqrtRatioBX96"
  shows "getLiquidityForAmounts sqrtPriceX96 sqrtRatioAX96 sqrtRatioBX96 amount0 amount1 =
     (if amount0 = 0 then
        getLiquidity1 (min sqrtRatioAX96 sqrtRatioBX96) sqrtPriceX96 amount1
      else if amount1 = 0 then
        getLiquidity0 sqrtPriceX96 (max sqrtRatioAX96 sqrtRatioBX96) amount0
      else inside_range_min sqrtPriceX96 (min sqrtRatioAX96 sqrtRatioBX96)
             (max sqrtRatioAX96 sqrtRatioBX96) amount0 amount1)"
proof (cases "sqrtRatioAX96 > sqrtRatioBX96")
  case True
  then show ?thesis using assms
    by (simp add: getLiquidityForAmounts_def inside_range_min_def min_def max_def
        split: sum.splits)
next
  case False
  then show ?thesis using assms
    by (simp add: getLiquidityForAmounts_def inside_range_min_def min_def max_def
        split: sum.splits)
qed

theorem getLiquidityForAmounts_inside_range_witness:
  "min (2 ^ 96) (3 * 2 ^ 96) < (2 * 2 ^ 96 :: int) \<and> (2 * 2 ^ 96 :: int) < max (2 ^ 96) (3 * 2 ^ 96)
   \<and> getLiquidityForAmounts (2 * 2 ^ 96) (2 ^ 96) (3 * 2 ^ 96) 5 7 = Inr 7
   \<and> getLiquidityForAmounts (2 * 2 ^ 96) (2 ^ 96) (3 * 2 ^ 96) 0 7 = Inr 7
   \<and> getLiquidityForAmounts (2 * 2 ^ 96) (2 ^ 96) (3 * 2 ^ 96) 5 0 = Inr 30"
proof -
  have a: "min (2 ^ 96) (3 * 2 ^ 96) < (2 * 2 ^ 96 :: int)"
    and b: "(2 * 2 ^ 96 :: int) < max (2 ^ 96) (3 * 2 ^ 96)" by simp_all
  have m: "inside_range_min (2 * 2 ^ 96) (2 ^ 96) (3 * 2 ^ 96) 5 7 = Inr 7"
    by (simp add: inside_range_min_def getLiquidity0_def getLiquidity1_def bigint_div_def
        Q96_def)
  have l1: "getLiquidity1 (2 ^ 96) (2 * 2 ^ 96) 7 = Inr 7"
    by (simp add: getLiquidity1_def bigint_div_def Q96_def)
  have l0: "getLiquidity0 (2 * 2 ^ 96) (3 * 2 ^ 96) 5 = Inr 30"
    by (simp add: getLiquidity0_def bigint_div_def Q96_def)
  show ?thesis
    using getLiquidityForAmounts_inside_range [OF a b, of 5 7]
      getLiquidityForAmounts_inside_range [OF a b, of 0 7]
      getLiquidityForAmounts_inside_range [OF a b, of 5 0] m l0 l1
    by simp
qed

text \<open>
  C8. For bounds \<open>0 < A < B\<close> (the square-root prices of a valid tick range) and a
  liquidity \<open>L \<ge> 0\<close>, computing the amounts and feeding them back succeeds and
  recovers a liquidity \<open>L'\<close> that never exceeds \<open>L\<close> and falls short of it by no more
  than the truncation tolerance: one unit of liquidity plus the liquidity that one
  smallest unit of a token amount is worth in the region the price is in. (That worth
  depends on the prices: it is large where the two bounds are close together.)
\<close>

theorem roundTrip_within_tolerance:
  assumes "0 < A" "A < B" "0 \<le> L"
  shows "\<exists>L'. roundTrip P A B L = Inr L' \<and> L' \<le> L \<and>
           L - L' \<le> 1 + (if P \<le> A then (B * A) div (Q96 * (B - A))
                        else if B \<le> P then Q96 div (B - A)
                        else max ((B * P) div (Q96 * (B - P))) (Q96 div (P - A)))"
proof -
  consider (below) "P \<le> A" | (above) "A < P" "B \<le> P" | (inside) "A < P" "P < B"
    by linarith
  then show ?thesis
  proof cases
    case below
    obtain x L' where "getAmount0ForLiquidity A B L = Inr x" "getLiquidity0 A B x = Inr L'"
      "L' \<le> L" "L - L' \<le> 1 + (B * A) div (Q96 * (B - A))"
      using amount0_roundtrip [OF assms] by blast
    then show ?thesis using below assms
      by (simp add: roundTrip_def getAmountsForLiquidity_def getLiquidityForAmounts_def)
  next
    case above
    obtain x L' where "getAmount1ForLiquidity A B L = Inr x" "getLiquidity1 A B x = Inr L'"
      "L' \<le> L" "L - L' \<le> 1 + Q96 div (B - A)"
      using amount1_roundtrip [OF assms(2,3)] by blast
    then show ?thesis using above assms
      by (simp add: roundTrip_def getAmountsForLiquidity_def getLiquidityForAmounts_def)
  next
    case inside
    have P: "0 < P" using inside assms by simp
    obtain x0 L0 where a0: "getAmount0ForLiquidity P B L = Inr x0"
      "getLiquidity0 P B x0 = Inr L0" "L0 \<le> L"
      "L - L0 \<le> 1 + (B * P) div (Q96 * (B - P))"
      using amount0_roundtrip [OF P inside(2) assms(3)] by blast
    obtain x1 L1 where a1: "getAmount1ForLiquidity A P L = Inr x1"
      "getLiquidity1 A P x1 = Inr L1" "L1 \<le> L" "L - L1 \<le> 1 + Q96 div (P - A)"
      using amount1_roundtrip [OF inside(1) assms(3)] by blast
    have amts: "getAmountsForLiquidity P A B L = Inr (x0, x1)"
      using inside assms a0(1) a1(1) by (simp add: getAmountsForLiquidity_def)
    have "\<exists>L'. getLiquidityForAmounts P A B x0 x1 = Inr L' \<and> (L' = L0 \<or> L' = L1)"
      using inside assms a0(2) a1(2)
      by (auto simp add: getLiquidityForAmounts_def)
    then obtain L' where L': "getLiquidityForAmounts P A B x0 x1 = Inr L'" "L' = L0 \<or> L' = L1"
      by blast
    have "L' \<le> L \<and> L - L' \<le> 1 + max ((B * P) div (Q96 * (B - P))) (Q96 div (P - A))"
      using L'(2) a0(3,4) a1(3,4) by auto
    then show ?thesis using inside amts L'(1) by (simp add: roundTrip_def)
  qed
qed

theorem roundTrip_within_tolerance_witness:
  "(0::int) < 78990846045029531151608375685
   \<and> (78990846045029531151608375685::int) < 79466191966197645195421774832
   \<and> (0::int) \<le> 1000000000000000000
   \<and> getSqrtRatioAtTick (- 60) = Inr 78990846045029531151608375685
   \<and> getSqrtRatioAtTick 60 = Inr 79466191966197645195421774832
   \<and> roundTrip (2 ^ 96) 78990846045029531151608375685 79466191966197645195421774832
        1000000000000000000 = Inr 999999999999999686
   \<and> (\<exists>L'. roundTrip (2 ^ 96) 78990846045029531151608375685
              79466191966197645195421774832 1000000000000000000 = Inr L'
          \<and> L' \<le> 1000000000000000000 \<and> 1000000000000000000 - L' \<le> 335)"
proof -
  have a: "(0::int) < 78990846045029531151608375685"
    and b: "(78990846045029531151608375685::int) < 79466191966197645195421774832"
    and c: "(0::int) \<le> 1000000000000000000" by simp_all
  have lo: "getSqrtRatioAtTick (- 60) = Inr 78990846045029531151608375685"
    by code_simp
  have hi: "getSqrtRatioAtTick 60 = Inr 79466191966197645195421774832"
    by code_simp
  have r: "roundTrip (2 ^ 96) 78990846045029531151608375685 79466191966197645195421774832
        1000000000000000000 = Inr 999999999999999686"
    by code_simp
  show ?thesis
    using roundTrip_within_tolerance [OF a b c, of "2 ^ 96"] lo hi r
    by (simp add: Q96_def)
qed

section \<open>Properties of the position tracker and of the execution engine\<close>

declare txLoop.simps [simp del] slippageLadder.simps [simp del] executeIntent.simps [simp del]

lemma reportReceipt_fields [simp]:
  "activePositions (reportReceipt d intent r) = activePositions d"
  "closedPositions (reportReceipt d intent r) = closedPositions d"
  "submittedTxs (reportReceipt d intent r) = submittedTxs d"
  "isProcessingIntent (reportReceipt d intent r) = isProcessingIntent d"
  "pendingIntents (reportReceipt d intent r) = pendingIntents d"
  by (simp_all add: reportReceipt_def)

lemma submitTx_fields [simp]:
  "activePositions (submitTx d tx) = activePositions d"
  "closedPositions (submitTx d tx) = closedPositions d"
  "submittedTxs (submitTx d tx) = submittedTxs d @ [tx]"
  "receipts (submitTx d tx) = receipts d"
  by (simp_all add: submitTx_def)

lemma trackerStep_refl [simp]: "trackerStep d d"
  by (simp add: trackerStep_def)

lemma trackerStep_trans: "trackerStep a b \<Longrightarrow> trackerStep b c \<Longrightarrow> trackerStep a c"
  by (auto simp add: trackerStep_def)

lemma trackerStep_same:
  "activePositions d' = activePositions d \<and> closedPositions d' = closedPositions d \<Longrightarrow>
   trackerStep d d'"
  by (simp add: trackerStep_def trackerDisjoint_def)

subsection \<open>Each stage keeps the tracker sound\<close>

lemma checkTracker_step: "checkTracker d intent = (r, d') \<Longrightarrow> trackerStep d d'"
  by (auto simp add: checkTracker_def trackerStep_def trackerDisjoint_def Let_def
      split: if_splits)

lemma validatePosition_step: "validatePosition e d intent = (r, d') \<Longrightarrow> trackerStep d d'"
  by (auto simp add: validatePosition_def onValidationError_def positionGone_def
      trackerStep_def trackerDisjoint_def Let_def split: sum.splits if_splits)

lemma ensureTokenApprovals_sets:
  "ensureTokenApprovals e d tokens = (r, d') \<Longrightarrow>
     activePositions d' = activePositions d \<and> closedPositions d' = closedPositions d"
  by (induction e d tokens rule: ensureTokenApprovals.induct)
    (auto split: approval.splits confirmation.splits)

lemma rebalanceStart_sets:
  "rebalanceStart e d intent = (r, d') \<Longrightarrow>
     activePositions d' = activePositions d \<and> closedPositions d' = closedPositions d"
  by (auto simp add: rebalanceStart_def Let_def split: sum.splits if_splits)

lemma sendSwap_sets:
  "sendSwap w d = (r, d', h) \<Longrightarrow>
     activePositions d' = activePositions d \<and> closedPositions d' = closedPositions d"
  by (auto simp add: sendSwap_def split: confirmation.splits)

lemma odosSwap_sets:
  "odosSwap w d = (r, d', h) \<Longrightarrow>
     activePositions d' = activePositions d \<and> closedPositions d' = closedPositions d"
  by (auto simp add: odosSwap_def split: option.splits confirmation.splits if_splits
      dest: sendSwap_sets)

lemma txLoop_sets:
  "txLoop e intent tLower tUpper tierIndex swapNeeded imbalance i txs positionClosed hashes d
     = (r, txs', closed', hashes', d') \<Longrightarrow>
   activePositions d' = activePositions d \<and> closedPositions d' = closedPositions d"
proof (induction e intent tLower tUpper tierIndex swapNeeded imbalance i txs positionClosed
    hashes d rule: txLoop.induct)
  case (1 e intent tLower tUpper tierIndex swapNeeded imbalance i txs positionClosed hashes d)
  show ?case
    using "1.prems" "1.IH"
    apply (subst (asm) txLoop.simps)
    apply (auto simp add: Let_def
        split: if_splits sum.splits confirmation.splits prod.splits option.splits
        dest!: odosSwap_sets)
    done
qed

text \<open>The transaction loop returns early only with a partial outcome.\<close>

lemma txLoop_outcome:
  "txLoop e intent tLower tUpper tierIndex swapNeeded imbalance i txs positionClosed hashes d
     = (Return out, txs', closed', hashes', d') \<Longrightarrow> \<exists>j h. out = PartialOut j h"
proof (induction e intent tLower tUpper tierIndex swapNeeded imbalance i txs positionClosed
    hashes d rule: txLoop.induct)
  case (1 e intent tLower tUpper tierIndex swapNeeded imbalance i txs positionClosed hashes d)
  show ?case
    using "1.prems" "1.IH"
    apply (subst (asm) txLoop.simps)
    apply (auto simp add: Let_def
        split: if_splits sum.splits confirmation.splits prod.splits option.splits)
    done
qed

lemma rebalanceAttempt_not_Continue:
  "rebalanceAttempt e intent tLower tUpper tierIndex bps cache positionClosed d
     \<noteq> (Continue u, cache', closed', d')"
  by (auto simp add: rebalanceAttempt_def Let_def
      split: sum.splits if_splits option.splits prod.splits step.splits)

lemma rebalanceAttempt_step:
  assumes "rebalanceAttempt e intent tLower tUpper tierIndex bps cache positionClosed d
           = (r, cache', closed', d')"
  shows "trackerStep d d'"
  using assms
  by (auto simp add: rebalanceAttempt_def Let_def trackerStep_def trackerDisjoint_def
      split: sum.splits if_splits option.splits prod.splits step.splits
      dest!: txLoop_sets)

text \<open>A completed attempt has put the token into the closed set.\<close>

lemma rebalanceAttempt_Return:
  assumes "rebalanceAttempt e intent tLower tUpper tierIndex bps cache positionClosed d
           = (Return out, cache', closed', d')"
  shows "(\<forall>n. out = Success n \<longrightarrow> recipe_tokenId intent \<in> closedPositions d')
         \<and> (\<forall>msg. out \<noteq> FailedOut msg)"
  using assms
  by (auto simp add: rebalanceAttempt_def Let_def
      split: sum.splits if_splits option.splits prod.splits step.splits
      dest!: txLoop_outcome)

lemma slippageLadder_step:
  "slippageLadder e intent tLower tUpper tierIndex cache positionClosed d = (r, d') \<Longrightarrow>
   trackerStep d d'"
proof (induction e intent tLower tUpper tierIndex cache positionClosed d
    rule: slippageLadder.induct)
  case (1 e intent tLower tUpper tierIndex cache positionClosed d)
  show ?case
  proof (cases "tierIndex < length SWAP_SLIPPAGE_TIERS")
    case False
    then show ?thesis using "1.prems" by (simp add: slippageLadder.simps)
  next
    case True
    obtain r1 cache1 closed1 d1 where
      att: "rebalanceAttempt e intent tLower tUpper tierIndex (SWAP_SLIPPAGE_TIERS ! tierIndex)
              cache positionClosed d = (r1, cache1, closed1, d1)"
      by (metis prod_cases4)
    have d1: "trackerStep d d1" using rebalanceAttempt_step [OF att] .
    show ?thesis
    proof (cases r1)
      case (Return out)
      then show ?thesis using "1.prems" True att d1 by (simp add: slippageLadder.simps)
    next
      case (Continue u)
      then show ?thesis using "1.prems" True att d1 by (simp add: slippageLadder.simps)
    next
      case (Throw msg)
      show ?thesis
      proof (cases "tierIndex = length SWAP_SLIPPAGE_TIERS - 1")
        case last: True
        then have "d' = reportReceipt d1 intent (exhaustedReceipt msg)"
          using "1.prems" True att Throw by (simp add: slippageLadder.simps)
        then show ?thesis using d1 by (simp add: trackerStep_def trackerDisjoint_def)
      next
        case notlast: False
        have nn: "\<not> \<not> tierIndex < length SWAP_SLIPPAGE_TIERS" using True by simp
        have next_rung:
          "slippageLadder e intent tLower tUpper (tierIndex + 1) cache1 closed1 d1 = (r, d')"
          using "1.prems" True att Throw notlast by (simp add: slippageLadder.simps)
        show ?thesis
          using trackerStep_trans [OF d1
              "1.IH" [OF nn att [symmetric] Throw refl refl notlast next_rung]] .
      qed
    qed
  qed
qed

text \<open>
  Started below the number of tiers, the ladder always returns: it neither throws nor
  falls through. It returns success only with the token in the closed set, and failure
  only with the receipt of the exhausted ladder.
\<close>

lemma slippageLadder_returns:
  "tierIndex < length SWAP_SLIPPAGE_TIERS \<Longrightarrow>
   \<exists>out d'. slippageLadder e intent tLower tUpper tierIndex cache positionClosed d
                = (Return out, d')
     \<and> (\<forall>n. out = Success n \<longrightarrow> recipe_tokenId intent \<in> closedPositions d')
     \<and> (\<forall>msg. out = FailedOut msg \<longrightarrow>
            receipts d' \<noteq> [] \<and> snd (last (receipts d')) = exhaustedReceipt msg)"
proof (induction e intent tLower tUpper tierIndex cache positionClosed d
    rule: slippageLadder.induct)
  case (1 e intent tLower tUpper tierIndex cache positionClosed d)
  have below: "tierIndex < length SWAP_SLIPPAGE_TIERS" by (rule "1.prems")
  obtain r1 cache1 closed1 d1 where
    att: "rebalanceAttempt e intent tLower tUpper tierIndex (SWAP_SLIPPAGE_TIERS ! tierIndex)
            cache positionClosed d = (r1, cache1, closed1, d1)"
    by (metis prod_cases4)
  show ?case
  proof (cases r1)
    case (Return out)
    have "(\<forall>n. out = Success n \<longrightarrow> recipe_tokenId intent \<in> closedPositions d1)
          \<and> (\<forall>msg. out \<noteq> FailedOut msg)"
      using att Return rebalanceAttempt_Return by blast
    then show ?thesis using below att Return by (simp add: slippageLadder.simps)
  next
    case (Continue u)
    then show ?thesis using att rebalanceAttempt_not_Continue by blast
  next
    case (Throw msg)
    show ?thesis
    proof (cases "tierIndex = length SWAP_SLIPPAGE_TIERS - 1")
      case True
      then show ?thesis using below att Throw
        by (simp add: slippageLadder.simps reportReceipt_def exhaustedReceipt_def)
    next
      case False
      have nn: "\<not> \<not> tierIndex < length SWAP_SLIPPAGE_TIERS" using below by simp
      have nxt: "tierIndex + 1 < length SWAP_SLIPPAGE_TIERS" using below False by simp
      have unfold: "slippageLadder e intent tLower tUpper tierIndex cache positionClosed d
          = slippageLadder e intent tLower tUpper (tierIndex + 1) cache1 closed1 d1"
        using below att Throw False by (simp add: slippageLadder.simps)
      show ?thesis
        using "1.IH" [OF nn att [symmetric] Throw refl refl False nxt] unfold by simp
    qed
  qed
qed

lemma genericPath_sets:
  "genericPath e d intent = (r, d') \<Longrightarrow>
     activePositions d' = activePositions d \<and> closedPositions d' = closedPositions d"
  by (auto simp add: genericPath_def split: prod.splits sum.splits)

lemma SWAP_SLIPPAGE_TIERS_nonempty: "0 < length SWAP_SLIPPAGE_TIERS"
  by (simp add: SWAP_SLIPPAGE_TIERS_def)

lemma rebalancePath_cases:
  obtains (early) r1 d1 where "rebalanceStart e d intent = (r1, d1)"
      "\<And>bounds. r1 \<noteq> Continue bounds"
      "rebalancePath e d intent = (case r1 of Return out \<Rightarrow> Return out | Throw msg \<Rightarrow> Throw msg
                                    | Continue b \<Rightarrow> Continue (), d1)"
  | (ladder) lo hi d1 out d2 where "rebalanceStart e d intent = (Continue (lo, hi), d1)"
      "slippageLadder e intent lo hi 0 emptyCache False d1 = (Return out, d2)"
      "\<forall>n. out = Success n \<longrightarrow> recipe_tokenId intent \<in> closedPositions d2"
      "rebalancePath e d intent = (Return out, d2)"
proof -
  obtain r1 d1 where st: "rebalanceStart e d intent = (r1, d1)"
    by (cases "rebalanceStart e d intent")
  show thesis
  proof (cases r1)
    case (Return out)
    then show ?thesis using early [OF st] st by (simp add: rebalancePath_def)
  next
    case (Throw msg)
    then show ?thesis using early [OF st] st by (simp add: rebalancePath_def)
  next
    case (Continue bounds)
    obtain lo hi where b: "bounds = (lo, hi)" by (cases bounds)
    obtain out d2 where lad:
      "slippageLadder e intent lo hi 0 emptyCache False d1 = (Return out, d2)"
      and cl: "\<forall>n. out = Success n \<longrightarrow> recipe_tokenId intent \<in> closedPositions d2"
      using slippageLadder_returns [OF SWAP_SLIPPAGE_TIERS_nonempty] by blast
    have "rebalancePath e d intent = (Return out, d2)"
      using st Continue b lad by (simp add: rebalancePath_def)
    then show ?thesis using ladder st Continue b lad cl by blast
  qed
qed

lemma rebalancePath_step:
  assumes "rebalancePath e d intent = (r, d')"
  shows "trackerStep d d'"
proof (cases e d intent rule: rebalancePath_cases)
  case (early r1 d1)
  then have "d' = d1" using assms by simp
  then show ?thesis using trackerStep_same [OF rebalanceStart_sets [OF early(1)]] by simp
next
  case (ladder lo hi d1 out d2)
  have "trackerStep d d1" using trackerStep_same [OF rebalanceStart_sets [OF ladder(1)]] .
  moreover have "trackerStep d1 d2" using slippageLadder_step [OF ladder(2)] .
  ultimately show ?thesis using assms ladder(4) trackerStep_trans by auto
qed

lemma rebalancePath_Success:
  assumes "rebalancePath e d intent = (Return (Success n), d')"
  shows "recipe_tokenId intent \<in> closedPositions d'"
proof (cases e d intent rule: rebalancePath_cases)
  case (early r1 d1)
  then have "r1 = Return (Success n)" using assms by (cases r1) simp_all
  then show ?thesis using early(1)
    by (auto simp add: rebalanceStart_def Let_def split: sum.splits if_splits)
next
  case (ladder lo hi d1 out d2)
  then have "out = Success n" "d2 = d'" using assms by simp_all
  then show ?thesis using ladder(3) by blast
qed

lemma ensureTokenApprovals_not_Return:
  "ensureTokenApprovals e d tokens \<noteq> (Return out, d')"
  by (induction e d tokens rule: ensureTokenApprovals.induct)
    (auto split: approval.splits confirmation.splits)

lemma checkTracker_Return:
  "checkTracker d intent = (Return out, d') \<Longrightarrow> \<exists>s. out = SkippedOut s"
  by (auto simp add: checkTracker_def Let_def split: if_splits)

lemma validatePosition_Return:
  "validatePosition e d intent = (Return out, d') \<Longrightarrow> \<exists>s. out = SkippedOut s"
  by (auto simp add: validatePosition_def onValidationError_def positionGone_def Let_def
      split: sum.splits if_splits)

lemma preamble_step:
  assumes "preamble e d intent = (r, d')"
  shows "trackerStep d d'"
proof -
  obtain r1 d1 where g: "checkTracker d intent = (r1, d1)" by (cases "checkTracker d intent")
  have d1: "trackerStep d d1" using checkTracker_step [OF g] .
  show ?thesis
  proof (cases r1)
    case (Continue u)
    obtain r2 d2 where v: "(if action intent = REBALANCE then validatePosition e d1 intent
                 else (Continue (), d1)) = (r2, d2)" by fastforce
    have "trackerStep d1 d2"
      using v validatePosition_step by (auto split: if_splits)
    then have d2: "trackerStep d d2" using d1 trackerStep_trans by blast
    show ?thesis
    proof (cases r2)
      case c2: (Continue u2)
      then have "ensureTokenApprovals e d2 approvalTokens = (r, d')"
        using assms g Continue v by (simp add: preamble_def)
      then have "trackerStep d2 d'"
        using trackerStep_same ensureTokenApprovals_sets by blast
      then show ?thesis using d2 trackerStep_trans by blast
    qed (use assms g Continue v d2 in \<open>simp_all add: preamble_def\<close>)
  qed (use assms g d1 in \<open>simp_all add: preamble_def\<close>)
qed

lemma preamble_Return:
  assumes "preamble e d intent = (Return out, d')"
  shows "\<exists>s. out = SkippedOut s"
proof -
  obtain r1 d1 where g: "checkTracker d intent = (r1, d1)" by (cases "checkTracker d intent")
  show ?thesis
  proof (cases r1)
    case (Continue u)
    obtain r2 d2 where v: "(if action intent = REBALANCE then validatePosition e d1 intent
                 else (Continue (), d1)) = (r2, d2)" by fastforce
    show ?thesis
    proof (cases r2)
      case c2: (Continue u2)
      then have "ensureTokenApprovals e d2 approvalTokens = (Return out, d')"
        using assms g Continue v by (simp add: preamble_def)
      then show ?thesis using ensureTokenApprovals_not_Return by blast
    next
      case (Return out2)
      then have "out2 = out" using assms g Continue v by (simp add: preamble_def)
      then show ?thesis using v Return validatePosition_Return by (auto split: if_splits)
    next
      case (Throw msg)
      then show ?thesis using assms g Continue v by (simp add: preamble_def)
    qed
  next
    case (Return out1)
    then have "out1 = out" using assms g by (simp add: preamble_def)
    then show ?thesis using g Return checkTracker_Return by blast
  next
    case (Throw msg)
    then show ?thesis using assms g by (simp add: preamble_def)
  qed
qed

lemma tryIntent_step:
  assumes "tryIntent e d intent = (r, d')"
  shows "trackerStep d d'"
proof (cases "env_setup e")
  case (Some msg)
  then show ?thesis using assms by (simp add: tryIntent_def)
next
  case None
  obtain r3 d3 where p: "preamble e d intent = (r3, d3)" by (cases "preamble e d intent")
  have d3: "trackerStep d d3" using preamble_step [OF p] .
  show ?thesis
  proof (cases r3)
    case (Continue u)
    show ?thesis
    proof (cases "pool_fee e")
      case f: None
      show ?thesis
      proof (cases "action intent = REBALANCE")
        case True
        then have "rebalancePath e d3 intent = (r, d')"
          using assms None p Continue f by (simp add: tryIntent_def)
        then show ?thesis using rebalancePath_step d3 trackerStep_trans by blast
      next
        case False
        then have "genericPath e d3 intent = (r, d')"
          using assms None p Continue f by (simp add: tryIntent_def)
        then have "trackerStep d3 d'" using trackerStep_same genericPath_sets by blast
        then show ?thesis using d3 trackerStep_trans by blast
      qed
    qed (use assms None p Continue d3 in \<open>simp add: tryIntent_def\<close>)
  qed (use assms None p d3 in \<open>simp_all add: tryIntent_def\<close>)
qed

lemma tryIntent_Success:
  assumes "action intent = REBALANCE" and "tryIntent e d intent = (Return (Success n), d')"
  shows "recipe_tokenId intent \<in> closedPositions d'"
proof (cases "env_setup e")
  case (Some msg)
  then show ?thesis using assms by (simp add: tryIntent_def)
next
  case None
  obtain r3 d3 where p: "preamble e d intent = (r3, d3)" by (cases "preamble e d intent")
  show ?thesis
  proof (cases r3)
    case (Continue u)
    show ?thesis
    proof (cases "pool_fee e")
      case f: None
      have "rebalancePath e d3 intent = (Return (Success n), d')"
        using assms None p Continue f by (simp add: tryIntent_def)
      then show ?thesis by (rule rebalancePath_Success)
    qed (use assms None p Continue in \<open>simp add: tryIntent_def\<close>)
  next
    case (Return out)
    then have "out = Success n" using assms None p by (simp add: tryIntent_def)
    then show ?thesis using preamble_Return p Return by blast
  next
    case (Throw msg)
    then show ?thesis using assms None p by (simp add: tryIntent_def)
  qed
qed

lemma rebalancePath_not_Continue: "rebalancePath e d intent \<noteq> (Continue u, d')"
proof (cases e d intent rule: rebalancePath_cases)
  case (early r1 d1)
  then show ?thesis by (cases r1) auto
next
  case (ladder lo hi d1 out d2)
  then show ?thesis by simp
qed

text \<open>The body of \<open>executeIntent\<close> always returns or throws.\<close>

lemma tryIntent_not_Continue: "tryIntent e d intent \<noteq> (Continue u, d')"
proof -
  have g: "genericPath e d3 intent \<noteq> (Continue u, d')" for d3
    by (simp add: genericPath_def split: prod.splits sum.splits)
  show ?thesis
    using g rebalancePath_not_Continue
    by (auto simp add: tryIntent_def split: option.splits prod.splits step.splits)
qed

subsection \<open>The retry wrapper and the queue\<close>

lemma executeIntent_step:
  "executeIntent envs d intent attempt = (out, d') \<Longrightarrow> trackerStep d d'"
proof (induction envs d intent attempt rule: executeIntent.induct)
  case (1 envs d intent attempt)
  obtain r1 d1 where t: "tryIntent (envs attempt) d intent = (r1, d1)"
    by (cases "tryIntent (envs attempt) d intent")
  have d1: "trackerStep d d1" using tryIntent_step [OF t] .
  show ?case
  proof (cases r1)
    case (Return o1)
    then show ?thesis using "1.prems" t d1 by (simp add: executeIntent.simps)
  next
    case (Continue u)
    then show ?thesis using "1.prems" t d1 by (simp add: executeIntent.simps)
  next
    case (Throw msg)
    show ?thesis
    proof (cases "shouldRetry intent msg attempt")
      case True
      have "executeIntent envs d1 intent (attempt + 1) = (out, d')"
        using "1.prems" t Throw True by (simp add: executeIntent.simps)
      then show ?thesis
        using trackerStep_trans [OF d1 "1.IH" [OF t [symmetric] Throw True]] by simp
    next
      case False
      then show ?thesis using "1.prems" t Throw d1
        by (auto simp add: executeIntent.simps Let_def trackerStep_def trackerDisjoint_def
            split: if_splits)
    qed
  qed
qed

text \<open>A REBALANCE that returns success has moved its token to the closed set.\<close>

lemma executeIntent_Success:
  "action intent = REBALANCE \<Longrightarrow> executeIntent envs d intent attempt = (Success n, d') \<Longrightarrow>
   recipe_tokenId intent \<in> closedPositions d'"
proof (induction envs d intent attempt rule: executeIntent.induct)
  case (1 envs d intent attempt)
  obtain r1 d1 where t: "tryIntent (envs attempt) d intent = (r1, d1)"
    by (cases "tryIntent (envs attempt) d intent")
  show ?case
  proof (cases r1)
    case (Return o1)
    then have "tryIntent (envs attempt) d intent = (Return (Success n), d')"
      using "1.prems"(2) t by (simp add: executeIntent.simps)
    then show ?thesis using tryIntent_Success [OF "1.prems"(1)] by blast
  next
    case (Continue u)
    then show ?thesis using "1.prems"(2) t by (simp add: executeIntent.simps)
  next
    case (Throw msg)
    show ?thesis
    proof (cases "shouldRetry intent msg attempt")
      case True
      have "executeIntent envs d1 intent (attempt + 1) = (Success n, d')"
        using "1.prems"(2) t Throw True by (simp add: executeIntent.simps)
      then show ?thesis
        using "1.IH" [OF t [symmetric] Throw True "1.prems"(1)] by simp
    next
      case False
      then show ?thesis using "1.prems"(2) t Throw
        by (simp add: executeIntent.simps Let_def)
    qed
  qed
qed

text \<open>
  The gate for a token that is closed and not active: nothing but the set-up can fail,
  and no transaction is submitted.
\<close>

lemma tryIntent_closed:
  assumes "action intent = REBALANCE"
    and "recipe_tokenId intent \<in> closedPositions d"
    and "recipe_tokenId intent \<notin> activePositions d"
  shows "tryIntent e d intent =
     (case env_setup e of
        Some msg \<Rightarrow> (Throw msg, d)
      | None \<Rightarrow>
          (Return (SkippedOut ''Position already closed''),
           reportReceipt d intent (skipped (AlreadyClosedBurned (recipe_tokenId intent)))))"
  using assms
  by (simp add: tryIntent_def preamble_def checkTracker_def Let_def split: option.splits)

lemma executeIntent_closed:
  "action intent = REBALANCE \<Longrightarrow> recipe_tokenId intent \<in> closedPositions d \<Longrightarrow>
   recipe_tokenId intent \<notin> activePositions d \<Longrightarrow>
   executeIntent envs d intent attempt = (out, d') \<Longrightarrow>
   submittedTxs d' = submittedTxs d \<and> closedPositions d' = closedPositions d
   \<and> activePositions d' = activePositions d
   \<and> (out = SkippedOut ''Position already closed''
        \<or> env_setup (envs attempt) \<noteq> None \<and> (\<exists>msg. out = FailedOut msg))"
proof (induction envs d intent attempt rule: executeIntent.induct)
  case (1 envs d intent attempt)
  note gate = tryIntent_closed [OF "1.prems"(1,2,3), of "envs attempt"]
  show ?case
  proof (cases "env_setup (envs attempt)")
    case None
    then show ?thesis using "1.prems"(4) gate by (auto simp add: executeIntent.simps)
  next
    case (Some msg)
    then have t: "tryIntent (envs attempt) d intent = (Throw msg, d)" using gate by simp
    show ?thesis
    proof (cases "shouldRetry intent msg attempt")
      case True
      have "executeIntent envs d intent (attempt + 1) = (out, d')"
        using "1.prems"(4) t True by (simp add: executeIntent.simps)
      then show ?thesis
        using "1.IH" [OF t [symmetric] refl True "1.prems"(1,2,3)] Some by auto
    next
      case False
      then show ?thesis using "1.prems" t Some
        by (auto simp add: executeIntent.simps Let_def split: if_splits)
    qed
  qed
qed

lemma executeAll_step:
  "executeAll world k intents d = (outs, d') \<Longrightarrow> trackerStep d d'"
proof (induction intents arbitrary: k d outs d')
  case Nil
  then show ?case by simp
next
  case (Cons intent rest)
  obtain o1 d1 where e: "executeIntent (world k) d intent 1 = (o1, d1)"
    by (cases "executeIntent (world k) d intent 1")
  obtain os d2 where r: "executeAll world (k + 1) rest d1 = (os, d2)"
    by (cases "executeAll world (k + 1) rest d1")
  have "trackerStep d d1" using executeIntent_step [OF e] .
  moreover have "trackerStep d1 d2" using Cons.IH [OF r] .
  ultimately have "trackerStep d d2" using trackerStep_trans by blast
  then show ?case using Cons.prems e r by simp
qed

lemma processIntentQueue_unfold:
  assumes "\<not> isProcessingIntent d" and "pendingIntents d \<noteq> []"
  shows "processIntentQueue world d =
     (fst (executeAll world 0 (pendingIntents d)
             (d\<lparr>isProcessingIntent := True, pendingIntents := []\<rparr>)),
      (snd (executeAll world 0 (pendingIntents d)
              (d\<lparr>isProcessingIntent := True, pendingIntents := []\<rparr>)))
        \<lparr>isProcessingIntent := False\<rparr>)"
  using assms by (simp add: processIntentQueue_def Let_def split: prod.splits)

lemma processIntentQueue_step:
  assumes "processIntentQueue world d = (outs, d')"
  shows "trackerStep d d'"
proof (cases "isProcessingIntent d \<or> pendingIntents d = []")
  case True
  then show ?thesis using assms by (auto simp add: processIntentQueue_def split: if_splits)
next
  case False
  let ?d1 = "d\<lparr>isProcessingIntent := True, pendingIntents := []\<rparr>"
  obtain os d2 where r: "executeAll world 0 (pendingIntents d) ?d1 = (os, d2)"
    by (cases "executeAll world 0 (pendingIntents d) ?d1")
  have "trackerStep ?d1 d2" using executeAll_step [OF r] .
  then have "trackerStep d (d2\<lparr>isProcessingIntent := False\<rparr>)"
    by (simp add: trackerStep_def trackerDisjoint_def)
  then show ?thesis using assms False r by (simp add: processIntentQueue_unfold)
qed

subsection \<open>The claims about the tracker\<close>

text \<open>
  C10. The active and the closed set are always disjoint: they are disjoint in the daemon
  as constructed, and \<open>executeIntent\<close> (any intent, any environment, any attempt) and
  \<open>processIntentQueue\<close> keep them disjoint. A token id enters the active set only at the
  tracker gate, after the check that it is not in the closed set; a position found gone
  is removed from the active set when it is put into the closed set.
\<close>

theorem active_closed_disjoint:
  "activePositions initialDaemon \<inter> closedPositions initialDaemon = {}
   \<and> (activePositions d \<inter> closedPositions d = {} \<longrightarrow>
        activePositions (snd (executeIntent envs d intent attempt))
          \<inter> closedPositions (snd (executeIntent envs d intent attempt)) = {})
   \<and> (activePositions d \<inter> closedPositions d = {} \<longrightarrow>
        activePositions (snd (processIntentQueue world d))
          \<inter> closedPositions (snd (processIntentQueue world d)) = {})
   \<and> (action intent = REBALANCE \<and> fst (checkTracker d intent) = Continue () \<longrightarrow>
        recipe_tokenId intent \<notin> closedPositions d)
   \<and> recipe_tokenId intent \<notin> activePositions (snd (positionGone d intent rs ret))"
proof (intro conjI impI)
  show "activePositions initialDaemon \<inter> closedPositions initialDaemon = {}"
    by (simp add: initialDaemon_def)
  show "activePositions (snd (executeIntent envs d intent attempt))
          \<inter> closedPositions (snd (executeIntent envs d intent attempt)) = {}"
    if "activePositions d \<inter> closedPositions d = {}"
    using that executeIntent_step [of envs d intent attempt]
    by (cases "executeIntent envs d intent attempt")
      (simp add: trackerStep_def trackerDisjoint_def)
  show "activePositions (snd (processIntentQueue world d))
          \<inter> closedPositions (snd (processIntentQueue world d)) = {}"
    if "activePositions d \<inter> closedPositions d = {}"
    using that processIntentQueue_step [of world d]
    by (cases "processIntentQueue world d") (simp add: trackerStep_def trackerDisjoint_def)
  show "recipe_tokenId intent \<notin> closedPositions d"
    if "action intent = REBALANCE \<and> fst (checkTracker d intent) = Continue ()"
    using that by (auto simp add: checkTracker_def Let_def split: if_splits)
  show "recipe_tokenId intent \<notin> activePositions (snd (positionGone d intent rs ret))"
    by (simp add: positionGone_def Let_def)
qed

theorem active_closed_disjoint_witness:
  "activePositions initialDaemon \<inter> closedPositions initialDaemon = {}
   \<and> activePositions (snd (executeIntent (\<lambda>n. calmEnv) initialDaemon rebalance7 1))
        \<inter> closedPositions (snd (executeIntent (\<lambda>n. calmEnv) initialDaemon rebalance7 1)) = {}
   \<and> closedPositions (snd (executeIntent (\<lambda>n. calmEnv) initialDaemon rebalance7 1)) = {7}
   \<and> action rebalance7 = REBALANCE \<and> fst (checkTracker initialDaemon rebalance7) = Continue ()
   \<and> recipe_tokenId rebalance7 \<notin> closedPositions initialDaemon"
proof -
  have c: "closedPositions (snd (executeIntent (\<lambda>n. calmEnv) initialDaemon rebalance7 1)) = {7}"
    by code_simp
  have g: "action rebalance7 = REBALANCE \<and> fst (checkTracker initialDaemon rebalance7) = Continue ()"
    by code_simp
  show ?thesis
    using active_closed_disjoint [of initialDaemon "\<lambda>n. calmEnv" rebalance7 1] c g
    by simp
qed


text \<open>
  C1, as stated, fails: a REBALANCE intent for a closed token id is not always reported
  skipped. When the set-up at the start of \<open>executeIntent\<close> throws (here: the networks
  file has no entry for Sonic), the tracker is never consulted and the intent is reported
  failed.
\<close>

theorem closed_position_counterexample:
  "7 \<in> closedPositions (initialDaemon\<lparr>closedPositions := {7}\<rparr>)
   \<and> fst (executeIntent (\<lambda>n. calmEnv\<lparr>env_setup := Some ''Sonic network not configured''\<rparr>)
            (initialDaemon\<lparr>closedPositions := {7}\<rparr>) rebalance7 1)
       = FailedOut ''Sonic network not configured''
   \<and> map (\<lambda>r. status (snd r))
        (receipts (snd (executeIntent
            (\<lambda>n. calmEnv\<lparr>env_setup := Some ''Sonic network not configured''\<rparr>)
            (initialDaemon\<lparr>closedPositions := {7}\<rparr>) rebalance7 1))) = [Failed]"
  by code_simp


text \<open>
  C1, amended. Let \<open>t\<close> be in the closed set (and the two sets disjoint, as they always
  are). Then through any sequence of intents \<open>t\<close> stays in the closed set, and every
  REBALANCE intent of the sequence that targets \<open>t\<close> is skipped with reason "Position
  already closed", or, when the set-up of \<open>executeIntent\<close> throws, reported failed. When all
  intents of the sequence are REBALANCE intents for \<open>t\<close>, no transaction at all is
  submitted.
\<close>

theorem closed_position_is_skipped:
  assumes "t \<in> closedPositions d" and "activePositions d \<inter> closedPositions d = {}"
    and "executeAll world k intents d = (outs, d')"
  shows "t \<in> closedPositions d' \<and> length outs = length intents
    \<and> (\<forall>i < length intents.
          action (intents ! i) = REBALANCE \<and> recipe_tokenId (intents ! i) = t \<longrightarrow>
          outs ! i = SkippedOut ''Position already closed''
          \<or> env_setup (world (k + i) 1) \<noteq> None \<and> (\<exists>msg. outs ! i = FailedOut msg))
    \<and> ((\<forall>intent \<in> set intents. action intent = REBALANCE \<and> recipe_tokenId intent = t)
          \<longrightarrow> submittedTxs d' = submittedTxs d)"
  using assms
proof (induction intents arbitrary: k d outs d')
  case Nil
  then show ?case by auto
next
  case (Cons intent rest)
  obtain o1 d1 where e: "executeIntent (world k) d intent 1 = (o1, d1)"
    by (cases "executeIntent (world k) d intent 1")
  obtain os d2 where r: "executeAll world (k + 1) rest d1 = (os, d2)"
    by (cases "executeAll world (k + 1) rest d1")
  have res: "outs = o1 # os" "d' = d2" using Cons.prems(3) e r by simp_all
  have step: "trackerStep d d1" using executeIntent_step [OF e] .
  have t1: "t \<in> closedPositions d1" and dj1: "activePositions d1 \<inter> closedPositions d1 = {}"
    using step Cons.prems(1,2) by (auto simp add: trackerStep_def trackerDisjoint_def)
  note ih = Cons.IH [OF t1 dj1 r]
  have tna: "t \<notin> activePositions d" using Cons.prems(1,2) by auto
  have here: "o1 = SkippedOut ''Position already closed''
          \<or> env_setup (world k 1) \<noteq> None \<and> (\<exists>msg. o1 = FailedOut msg)"
    and same: "submittedTxs d1 = submittedTxs d"
    if "action intent = REBALANCE \<and> recipe_tokenId intent = t"
    using executeIntent_closed [OF _ _ _ e] that Cons.prems(1) tna by auto
  have idx: "outs ! i = SkippedOut ''Position already closed''
          \<or> env_setup (world (k + i) 1) \<noteq> None \<and> (\<exists>msg. outs ! i = FailedOut msg)"
    if "i < length (intent # rest)"
      "action ((intent # rest) ! i) = REBALANCE \<and> recipe_tokenId ((intent # rest) ! i) = t"
    for i
  proof (cases i)
    case 0
    then show ?thesis using that here res by simp
  next
    case (Suc j)
    then have "j < length rest" "action (rest ! j) = REBALANCE \<and> recipe_tokenId (rest ! j) = t"
      using that by simp_all
    then have "os ! j = SkippedOut ''Position already closed''
          \<or> env_setup (world (k + 1 + j) 1) \<noteq> None \<and> (\<exists>msg. os ! j = FailedOut msg)"
      using ih by blast
    then show ?thesis using Suc res by simp
  qed
  have all: "submittedTxs d' = submittedTxs d"
    if "\<forall>x \<in> set (intent # rest). action x = REBALANCE \<and> recipe_tokenId x = t"
    using that same ih res by simp
  show ?case using ih res idx all by auto
qed

theorem closed_position_is_skipped_witness:
  "7 \<in> closedPositions (initialDaemon\<lparr>closedPositions := {7}\<rparr>)
   \<and> activePositions (initialDaemon\<lparr>closedPositions := {7}\<rparr>)
        \<inter> closedPositions (initialDaemon\<lparr>closedPositions := {7}\<rparr>) = {}
   \<and> fst (executeAll (\<lambda>k n. calmEnv) 0 [rebalance7, rebalance7]
            (initialDaemon\<lparr>closedPositions := {7}\<rparr>))
       = [SkippedOut ''Position already closed'', SkippedOut ''Position already closed'']
   \<and> submittedTxs (snd (executeAll (\<lambda>k n. calmEnv) 0 [rebalance7, rebalance7]
            (initialDaemon\<lparr>closedPositions := {7}\<rparr>))) = []
   \<and> 7 \<in> closedPositions (snd (executeAll (\<lambda>k n. calmEnv) 0 [rebalance7, rebalance7]
            (initialDaemon\<lparr>closedPositions := {7}\<rparr>)))"
proof -
  let ?d = "initialDaemon\<lparr>closedPositions := {7}\<rparr>"
  let ?run = "executeAll (\<lambda>k n. calmEnv) 0 [rebalance7, rebalance7] ?d"
  have a: "7 \<in> closedPositions ?d" by simp
  have b: "activePositions ?d \<inter> closedPositions ?d = {}" by (simp add: initialDaemon_def)
  have c: "?run = (fst ?run, snd ?run)" by simp
  have outs: "fst ?run
       = [SkippedOut ''Position already closed'', SkippedOut ''Position already closed'']"
    by code_simp
  have all: "\<forall>intent \<in> set [rebalance7, rebalance7].
               action intent = REBALANCE \<and> recipe_tokenId intent = 7"
    by (simp add: rebalance7_def)
  show ?thesis
    using closed_position_is_skipped [OF a b c] outs all
    by (simp add: initialDaemon_def)
qed

subsection \<open>The claims about the rebalance ladder\<close>

text \<open>
  C2. The claim is about a swap that fails at each of the five slippage tiers. The engine
  tries the swap only in the attempt that executes the close transaction: on every later
  rung the close transaction is skipped, and the swap, which is injected after it, is
  skipped with it, although the log of that rung says that only the swap is retried. So
  when the aggregator fails at every tier, the first rung ends at the swap, the second
  rung submits the reopen transaction without any swap, and the intent is reported
  completed with slippage tier 50: neither failed nor with five attempts exhausted.
\<close>

theorem swap_not_retried:
  "fst (executeIntent
          (\<lambda>n. calmEnv\<lparr>odos := (\<lambda>tierIndex. calmSwap\<lparr>swap_prepare := Some ''Odos quote failed: 500''\<rparr>)\<rparr>)
          initialDaemon rebalance7 1) = Success 1
   \<and> submittedTxs (snd (executeIntent
          (\<lambda>n. calmEnv\<lparr>odos := (\<lambda>tierIndex. calmSwap\<lparr>swap_prepare := Some ''Odos quote failed: 500''\<rparr>)\<rparr>)
          initialDaemon rebalance7 1))
       = [BundleTx ''CLOSE_POSITION'', BundleTx ''OPEN_POSITION'']
   \<and> map (\<lambda>r. (status (snd r), swapSlippageUsed (snd r), attemptsExhausted (snd r)))
        (receipts (snd (executeIntent
          (\<lambda>n. calmEnv\<lparr>odos := (\<lambda>tierIndex. calmSwap\<lparr>swap_prepare := Some ''Odos quote failed: 500''\<rparr>)\<rparr>)
          initialDaemon rebalance7 1)))
       = [(Completed, Some 50, None)]"
  by code_simp

text \<open>
  C3, as stated, fails: when the bundle needs a swap, the swap is counted, and the
  receipt of the partial outcome reports two completed transactions, not one.
\<close>

theorem drift_counterexample:
  "fst (executeIntent (\<lambda>n. calmEnv\<lparr>pool_slot0_check := (\<lambda>tierIndex i. Inr 50)\<rparr>)
          initialDaemon rebalance7 1) = PartialOut 1 2
   \<and> submittedTxs (snd (executeIntent (\<lambda>n. calmEnv\<lparr>pool_slot0_check := (\<lambda>tierIndex i. Inr 50)\<rparr>)
          initialDaemon rebalance7 1)) = [BundleTx ''CLOSE_POSITION'', SwapTx]
   \<and> map (\<lambda>r. (status (snd r), completedTxs (snd r)))
        (receipts (snd (executeIntent (\<lambda>n. calmEnv\<lparr>pool_slot0_check := (\<lambda>tierIndex i. Inr 50)\<rparr>)
          initialDaemon rebalance7 1))) = [(Partial, Some 2)]"
  by code_simp

text \<open>
  C3, amended. In the first attempt of the ladder, let the bundle be the close
  transaction followed by the reopen transaction, let the close transaction confirm
  and, when the bundle needs a swap, the swap too (\<open>dAfter\<close> is the state at that
  point), and let the pool tick read before the reopen transaction be inside
  \<open>[tLower, tUpper]\<close>. Then the ladder returns the partial outcome at once: nothing is
  submitted after \<open>dAfter\<close>, and the receipt has status partial with \<open>completedTxs\<close>
  equal to 1 when the bundle needs no swap and to 2 when it does.
\<close>

theorem drift_before_reopen:
  assumes fresh: "pool_slot0_attempt e 0 = Inr freshTick"
      "\<not> (freshTick \<ge> tLower \<and> freshTick \<le> tUpper)"
    and build: "build_transaction e 0
        = Inr \<lparr>transactions = Some [closeTx, openTx], needsSwap = ns, imbalanceData = im\<rparr>"
    and lbl: "labelOf closeTx = ''CLOSE_POSITION''"
    and close: "send_transaction e 0 0 = Confirmed"
    and swap: "(if ns \<and> im then odosSwap (odos e 0) (submitTx d (BundleTx ''CLOSE_POSITION''))
                else (Inr None, submitTx d (BundleTx ''CLOSE_POSITION''), 0))
               = (Inr refreshed, dAfter, h)"
    and reopen: "labelOf (case refreshed of None \<Rightarrow> openTx | Some tx \<Rightarrow> tx) \<noteq> ''CLOSE_POSITION''"
    and drift: "pool_slot0_check e 0 1 = Inr checkTick" "tLower \<le> checkTick" "checkTick \<le> tUpper"
  shows "slippageLadder e intent tLower tUpper 0 emptyCache False d
      = (Return (PartialOut 1 (1 + h)),
         reportReceipt dAfter intent (partialReceipt 1 checkTick ns (1 + h)))
    \<and> submittedTxs (reportReceipt dAfter intent (partialReceipt 1 checkTick ns (1 + h)))
        = submittedTxs dAfter
    \<and> status (partialReceipt 1 checkTick ns (1 + h)) = Partial
    \<and> completedTxs (partialReceipt 1 checkTick ns (1 + h)) = Some (if ns then 2 else 1)"
proof -
  let ?txs = "[closeTx, openTx]"
  let ?txs' = "(case refreshed of None \<Rightarrow> ?txs | Some tx \<Rightarrow> ?txs[length ?txs - 1 := tx])"
  have second: "?txs' ! 1 = (case refreshed of None \<Rightarrow> openTx | Some tx \<Rightarrow> tx)"
    and len: "length ?txs' = 2"
    by (simp_all split: option.splits)
  have check: "driftCheck e tLower tUpper 0 1 = Inr (Some checkTick)"
    and nocheck: "driftCheck e tLower tUpper 0 0 = Inr None"
    using drift by (simp_all add: driftCheck_def)
  have at1: "txLoop e intent tLower tUpper 0 ns im 1 ?txs' True (1 + h) dAfter
      = (Return (PartialOut 1 (1 + h)), ?txs', True, 1 + h,
         reportReceipt dAfter intent (partialReceipt 1 checkTick ns (1 + h)))"
    using reopen check second len by (subst txLoop.simps) (simp add: Let_def)
  have at0: "txLoop e intent tLower tUpper 0 ns im 0 ?txs False 0 d
      = (Return (PartialOut 1 (1 + h)), ?txs', True, 1 + h,
         reportReceipt dAfter intent (partialReceipt 1 checkTick ns (1 + h)))"
  proof (cases "ns \<and> im")
    case True
    then have sw: "odosSwap (odos e 0) (submitTx d (BundleTx ''CLOSE_POSITION''))
        = (Inr refreshed, dAfter, h)" using swap by simp
    show ?thesis
      using True lbl close sw at1 nocheck by (subst txLoop.simps) (simp add: Let_def)
  next
    case False
    then have sw: "refreshed = None" "dAfter = submitTx d (BundleTx ''CLOSE_POSITION'')" "h = 0"
      using swap by (auto split: if_splits)
    show ?thesis
      using False lbl close sw at1 nocheck by (subst txLoop.simps) (auto simp add: Let_def)
  qed
  have "rebalanceAttempt e intent tLower tUpper 0 (SWAP_SLIPPAGE_TIERS ! 0) emptyCache False d
      = (Return (PartialOut 1 (1 + h)),
         \<lparr>transactions = Some ?txs', needsSwap = ns, imbalanceData = im\<rparr>, True,
         reportReceipt dAfter intent (partialReceipt 1 checkTick ns (1 + h)))"
    using fresh build at0 by (simp add: rebalanceAttempt_def Let_def)
  then have "slippageLadder e intent tLower tUpper 0 emptyCache False d
      = (Return (PartialOut 1 (1 + h)),
         reportReceipt dAfter intent (partialReceipt 1 checkTick ns (1 + h)))"
    by (subst slippageLadder.simps) (simp add: SWAP_SLIPPAGE_TIERS_def)
  then show ?thesis by (simp add: partialReceipt_def)
qed

theorem drift_before_reopen_witness:
  "slippageLadder (calmEnv\<lparr>pool_slot0_check := (\<lambda>tierIndex i. Inr 50)\<rparr>) rebalance7 (- 100) 100 0
      emptyCache False initialDaemon
    = (Return (PartialOut 1 2),
       reportReceipt (submitTx (submitTx initialDaemon (BundleTx ''CLOSE_POSITION'')) SwapTx)
         rebalance7 (partialReceipt 1 50 True 2))
   \<and> completedTxs (partialReceipt 1 50 True 2) = Some 2
   \<and> completedTxs (partialReceipt 1 50 False 1) = Some 1"
proof -
  let ?e = "calmEnv\<lparr>pool_slot0_check := (\<lambda>tierIndex i. Inr 50)\<rparr>"
  let ?close = "\<lparr>label = Some ''CLOSE_POSITION''\<rparr>"
  let ?open = "\<lparr>label = Some ''OPEN_POSITION''\<rparr>"
  let ?dAfter = "submitTx (submitTx initialDaemon (BundleTx ''CLOSE_POSITION'')) SwapTx"
  have fresh: "pool_slot0_attempt ?e 0 = Inr 500" "\<not> ((500::int) \<ge> - 100 \<and> (500::int) \<le> 100)"
    by (simp_all add: calmEnv_def)
  have build: "build_transaction ?e 0
      = Inr \<lparr>transactions = Some [?close, ?open], needsSwap = True, imbalanceData = True\<rparr>"
    by (simp add: calmEnv_def closeAndReopen_def)
  have lbl: "labelOf ?close = ''CLOSE_POSITION''" by (simp add: labelOf_def)
  have close: "send_transaction ?e 0 0 = Confirmed" by (simp add: calmEnv_def)
  have swap: "(if True \<and> True
               then odosSwap (odos ?e 0) (submitTx initialDaemon (BundleTx ''CLOSE_POSITION''))
               else (Inr None, submitTx initialDaemon (BundleTx ''CLOSE_POSITION''), 0))
              = (Inr None, ?dAfter, 1)"
    by (simp add: calmEnv_def calmSwap_def odosSwap_def sendSwap_def)
  have reopen: "labelOf (case None of None \<Rightarrow> ?open | Some tx \<Rightarrow> tx) \<noteq> ''CLOSE_POSITION''"
    by (simp add: labelOf_def)
  have drift: "pool_slot0_check ?e 0 1 = Inr 50" "(- 100::int) \<le> 50" "(50::int) \<le> 100"
    by simp_all
  have counts: "completedTxs (partialReceipt 1 50 True 2) = Some 2"
    "completedTxs (partialReceipt 1 50 False 1) = Some 1"
    by (simp_all add: partialReceipt_def)
  have "slippageLadder ?e rebalance7 (- 100) 100 0 emptyCache False initialDaemon
      = (Return (PartialOut 1 (1 + 1)),
         reportReceipt ?dAfter rebalance7 (partialReceipt 1 50 True (1 + 1)))"
    using drift_before_reopen [OF fresh build lbl close swap reopen drift, of rebalance7]
    by blast
  then show ?thesis using counts by (simp del: One_nat_def)
qed

subsection \<open>The claim about the intent queue\<close>

text \<open>
  C4, as stated, fails. The queue executes the intents one after the other, so the
  second of two REBALANCE intents for the same token id starts when the first has
  finished. When the first has completed the rebalance, the token id is no longer in the
  active set but in the closed set, and the second is skipped with reason "Position
  already closed", not "already processing".
\<close>

theorem back_to_back_counterexample:
  "fst (processIntentQueue (\<lambda>k n. calmEnv)
          (initialDaemon\<lparr>pendingIntents := [rebalance7, rebalance7\<lparr>intentId := ''intent-b''\<rparr>]\<rparr>))
     = [Success 3, SkippedOut ''Position already closed'']
   \<and> map (\<lambda>r. (fst r, status (snd r), reason (snd r)))
        (receipts (snd (processIntentQueue (\<lambda>k n. calmEnv)
          (initialDaemon\<lparr>pendingIntents := [rebalance7, rebalance7\<lparr>intentId := ''intent-b''\<rparr>]\<rparr>))))
     = [(''intent-a'', Completed, None), (''intent-b'', Skipped, Some (AlreadyClosedBurned 7))]"
  by code_simp

text \<open>
  C4, amended. Two REBALANCE intents for the same token id, queued back-to-back (in
  either order: the statement is symmetric in the two), are executed strictly one after
  the other. When the first completes the rebalance, exactly one of the two is
  processed: the second is skipped with reason "Position already closed" and submits no
  transaction (provided the set-up of \<open>executeIntent\<close> does not throw for it); the
  token id ends in the closed set and not in the active set.
\<close>

theorem back_to_back_rebalance:
  assumes acts: "action i1 = REBALANCE" "action i2 = REBALANCE"
    and toks: "recipe_tokenId i1 = t" "recipe_tokenId i2 = t"
    and idle: "\<not> isProcessingIntent d"
    and queue: "pendingIntents d = [i1, i2]"
    and disj: "activePositions d \<inter> closedPositions d = {}"
    and first: "executeIntent (world 0) (d\<lparr>isProcessingIntent := True, pendingIntents := []\<rparr>) i1 1
                  = (Success n, d1)"
    and ready: "env_setup (world 1 1) = None"
  shows "fst (processIntentQueue world d) = [Success n, SkippedOut ''Position already closed'']
    \<and> submittedTxs (snd (processIntentQueue world d)) = submittedTxs d1
    \<and> t \<in> closedPositions (snd (processIntentQueue world d))
    \<and> t \<notin> activePositions (snd (processIntentQueue world d))"
proof -
  let ?d0 = "d\<lparr>isProcessingIntent := True, pendingIntents := []\<rparr>"
  have cl: "t \<in> closedPositions d1"
    using executeIntent_Success [OF acts(1) first] toks(1) by simp
  have "trackerStep ?d0 d1" using executeIntent_step [OF first] .
  then have "activePositions d1 \<inter> closedPositions d1 = {}"
    using disj by (simp add: trackerStep_def trackerDisjoint_def)
  then have na: "t \<notin> activePositions d1" using cl by auto
  have gate: "tryIntent (world 1 1) d1 i2
      = (Return (SkippedOut ''Position already closed''),
         reportReceipt d1 i2 (skipped (AlreadyClosedBurned t)))"
    using tryIntent_closed [of i2 d1 "world 1 1"] acts(2) toks(2) cl na ready by simp
  have second: "executeIntent (world 1) d1 i2 1
      = (SkippedOut ''Position already closed'',
         reportReceipt d1 i2 (skipped (AlreadyClosedBurned t)))"
    using gate by (subst executeIntent.simps) simp
  have run: "executeAll world 0 [i1, i2] ?d0
      = ([Success n, SkippedOut ''Position already closed''],
         reportReceipt d1 i2 (skipped (AlreadyClosedBurned t)))"
    using first second by simp
  have ne: "pendingIntents d \<noteq> []" using queue by simp
  have "processIntentQueue world d
      = ([Success n, SkippedOut ''Position already closed''],
         (reportReceipt d1 i2 (skipped (AlreadyClosedBurned t)))\<lparr>isProcessingIntent := False\<rparr>)"
    unfolding processIntentQueue_unfold [OF idle ne] queue run by simp
  then show ?thesis using cl na by simp
qed

theorem back_to_back_rebalance_witness:
  "fst (processIntentQueue (\<lambda>k n. calmEnv)
          (initialDaemon\<lparr>pendingIntents := [rebalance7, rebalance7\<lparr>intentId := ''intent-b''\<rparr>]\<rparr>))
     = [Success 3, SkippedOut ''Position already closed'']
   \<and> 7 \<in> closedPositions (snd (processIntentQueue (\<lambda>k n. calmEnv)
          (initialDaemon\<lparr>pendingIntents := [rebalance7, rebalance7\<lparr>intentId := ''intent-b''\<rparr>]\<rparr>)))
   \<and> 7 \<notin> activePositions (snd (processIntentQueue (\<lambda>k n. calmEnv)
          (initialDaemon\<lparr>pendingIntents := [rebalance7, rebalance7\<lparr>intentId := ''intent-b''\<rparr>]\<rparr>)))"
proof -
  let ?i2 = "rebalance7\<lparr>intentId := ''intent-b''\<rparr>"
  let ?d = "initialDaemon\<lparr>pendingIntents := [rebalance7, ?i2]\<rparr>"
  let ?busy = "?d\<lparr>isProcessingIntent := True, pendingIntents := []\<rparr>"
  have acts: "action rebalance7 = REBALANCE" "action ?i2 = REBALANCE"
    and toks: "recipe_tokenId rebalance7 = 7" "recipe_tokenId ?i2 = 7"
    by (simp_all add: rebalance7_def)
  have idle: "\<not> isProcessingIntent ?d" by (simp add: initialDaemon_def)
  have queue: "pendingIntents ?d = [rebalance7, ?i2]" by simp
  have disj: "activePositions ?d \<inter> closedPositions ?d = {}" by (simp add: initialDaemon_def)
  have "fst (executeIntent (\<lambda>n. calmEnv) ?busy rebalance7 1) = Success 3" by code_simp
  then have first: "executeIntent (\<lambda>n. calmEnv) ?busy rebalance7 1
      = (Success 3, snd (executeIntent (\<lambda>n. calmEnv) ?busy rebalance7 1))"
    by (metis prod.collapse)
  have ready: "env_setup calmEnv = None" by (simp add: calmEnv_def)
  note result = back_to_back_rebalance [where world = "\<lambda>k n. calmEnv",
      OF acts toks idle queue disj first ready]
  show ?thesis using result by blast
qed

section \<open>Properties of the policy gate\<close>

text \<open>
  C9, as stated, fails: \<open>validatePolicy\<close> reads the clock, so two invocations with the
  same intent and the same policy, made at different hours, can return different
  booleans and record different reasons. It also reads the policy file when no policy is
  passed, so two invocations with the same intent and a null policy, made at the same
  hour, differ when the file was changed in between.
\<close>

theorem validatePolicy_clock_counterexample:
  "validatePolicy officeHours 10 rebalance7 (Some officeHours) = (True, None)
   \<and> validatePolicy officeHours 20 rebalance7 (Some officeHours)
       = (False, Some (OutsideAllowedHours (Some 9) (Some 17) 20))
   \<and> validatePolicy officeHours 10 rebalance7 None = (True, None)
   \<and> validatePolicy automationOff 10 rebalance7 None = (False, Some AutomationDisabled)"
  by code_simp

text \<open>
  C9, amended. \<open>validatePolicy\<close> is a function of the intent, the policy argument, the
  content of the policy file (which it loads when no policy is passed) and the local hour
  at the time of the call. Two invocations with identical (intent, policy), and with the
  same content of the policy file in case the policy passed is null, return the same
  boolean and record the same rejection reason whenever the hours of both calls are
  inside the allowed-hours window of the policy in effect (in particular, whenever that
  policy has no such window).
\<close>

theorem validatePolicy_within_window:
  assumes "policy = None \<longrightarrow> loaded1 = loaded2"
    and "hoursRejection (policyInEffect loaded1 policy) h1 = None"
    and "hoursRejection (policyInEffect loaded2 policy) h2 = None"
  shows "validatePolicy loaded1 h1 intent policy = validatePolicy loaded2 h2 intent policy"
proof (cases policy)
  case None
  then have same: "loaded1 = loaded2" using assms(1) by simp
  show ?thesis using assms(2,3) None same by (simp add: validatePolicy_def policyInEffect_def)
next
  case (Some p)
  show ?thesis using assms(2,3) Some by (simp add: validatePolicy_def policyInEffect_def)
qed

theorem validatePolicy_within_window_witness:
  "hoursRejection (policyInEffect officeHours (Some officeHours)) 10 = None
   \<and> hoursRejection (policyInEffect automationOff (Some officeHours)) 16 = None
   \<and> hoursRejection (policyInEffect officeHours None) 10 = None
   \<and> hoursRejection (policyInEffect officeHours None) 16 = None
   \<and> validatePolicy officeHours 10 rebalance7 (Some officeHours)
       = validatePolicy automationOff 16 rebalance7 (Some officeHours)
   \<and> validatePolicy automationOff 16 rebalance7 (Some officeHours) = (True, None)
   \<and> validatePolicy officeHours 10 rebalance7 None
       = validatePolicy officeHours 16 rebalance7 None
   \<and> validatePolicy officeHours 16 rebalance7 None = (True, None)"
proof -
  have given: "Some officeHours = None \<longrightarrow> officeHours = automationOff" by simp
  have a: "hoursRejection (policyInEffect officeHours (Some officeHours)) 10 = None"
    and b: "hoursRejection (policyInEffect automationOff (Some officeHours)) 16 = None"
    by (simp_all add: policyInEffect_def hoursRejection_def officeHours_def element_def)
  have onFile: "(None :: policy option) = None \<longrightarrow> officeHours = officeHours" by simp
  have c: "hoursRejection (policyInEffect officeHours None) 10 = None"
    and d: "hoursRejection (policyInEffect officeHours None) 16 = None"
    by (simp_all add: policyInEffect_def hoursRejection_def officeHours_def element_def)
  have e: "validatePolicy automationOff 16 rebalance7 (Some officeHours) = (True, None)"
    by code_simp
  have f: "validatePolicy officeHours 16 rebalance7 None = (True, None)"
    by code_simp
  show ?thesis
    using validatePolicy_within_window [OF given a b, of rebalance7]
      validatePolicy_within_window [OF onFile c d, of rebalance7] a b c d e f
    by simp
qed

section \<open>Properties of the grace period monitor\<close>



end
